theory Spec2Isabelle
  imports Complex_Main "HOL-Library.Word" "HOL-Library.Multiset"
begin

section \<open>Numeric types of the drivers\<close>

text \<open>
  The drivers count degrees of freedom and adaptivity steps in C++ \<open>int\<close>: a 32-bit
  word, added with wrap-around and compared as a signed value (\<open>\<le>s\<close>, \<open><s\<close>).
\<close>

type_synonym cint = "32 word"

text \<open>
  The error estimate is a C++ \<open>double\<close>. The drivers only compare it with a constant,
  so a double is modelled by its value: a real number, an infinity, or NaN. A comparison
  with NaN is false, as in IEEE 754. A decimal literal of the source stands for its
  decimal value.
\<close>

datatype double = Finite real | PosInf | NegInf | NaN

fun double_less :: "double \<Rightarrow> double \<Rightarrow> bool" where
  "double_less (Finite a) (Finite b) = (a < b)"
| "double_less (Finite a) PosInf = True"
| "double_less NegInf (Finite b) = True"
| "double_less NegInf PosInf = True"
| "double_less _ _ = False"

section \<open>Meshes and spaces\<close>

text \<open>
  An element is a base element of the loaded mesh or a son of a refined element.
  A mesh is the list of its active elements.
\<close>

datatype element = Base nat | Son element nat

type_synonym mesh = "element list"

text \<open>
  Modelled from the spec: \<open>Mesh::copy\<close> is library code that is not among the source
  files; the spec (section 6) gives \<open>copy() -> Mesh\<close> as a deep copy, so the copy is an
  independent value equal to the source mesh.
\<close>

definition mesh_copy :: "mesh \<Rightarrow> mesh" where
  "mesh_copy src = src"

text \<open>
  Modelled from the spec: \<open>Mesh::refine_all_elements\<close> is library code that is not among
  the source files; the spec (section 4.1) calls it one global uniform refinement pass in
  which every element is split. Each active element is replaced by its four sons.
\<close>

definition sons :: "element \<Rightarrow> element list" where
  "sons e = map (Son e) [0, 1, 2, 3]"

definition refine_all_elements :: "mesh \<Rightarrow> mesh" where
  "refine_all_elements m = concat (map sons m)"

datatype BCType = BC_ESSENTIAL | BC_NATURAL

definition BDY_LEFT :: cint where
  "BDY_LEFT = 1"

definition BDY_TOP :: cint where
  "BDY_TOP = 2"

definition bc_types_xy :: "cint \<Rightarrow> BCType" where
  "bc_types_xy marker = (if marker = BDY_LEFT then BC_ESSENTIAL else BC_NATURAL)"

text \<open>
  The mesh objects of the drivers, by the name of the variable; \<open>The_mesh\<close> is the only
  mesh of the one-component driver.
\<close>

datatype mesh_var = U_mesh | V_mesh | Ref_u_mesh | Ref_v_mesh | The_mesh

text \<open>
  A space points to its mesh, classifies boundary markers, gives every element of the mesh
  a polynomial order, and stores the number of degrees of freedom of its last enumeration.
\<close>

record space =
  space_mesh :: mesh_var
  bc_types :: "cint \<Rightarrow> BCType"
  elem_order :: "element \<Rightarrow> int option"
  ndof :: cint

definition get_num_dofs :: "space \<Rightarrow> cint" where
  "get_num_dofs sp = ndof sp"

text \<open>
  Modelled from the spec: \<open>get_num_dofs\<close> on a tuple of spaces is library code that is
  not among the source files; the spec (section 4.6) speaks of the total DOF count across
  components, the sum of the counts of the spaces.
\<close>

definition get_num_dofs_tuple :: "space list \<Rightarrow> cint" where
  "get_num_dofs_tuple sps = foldr (\<lambda>sp n. get_num_dofs sp + n) sps 0"

text \<open>The order an element has in a space, or inherits from its nearest ancestor there.\<close>

fun inherited_order :: "(element \<Rightarrow> int option) \<Rightarrow> element \<Rightarrow> int option" where
  "inherited_order ord (Base n) = ord (Base n)"
| "inherited_order ord (Son e i) =
     (case ord (Son e i) of Some p \<Rightarrow> Some p | None \<Rightarrow> inherited_order ord e)"

text \<open>
  The enumeration of degrees of freedom (\<open>assign_dofs\<close>) is library code that is not among
  the source files and the spec gives no rule for it: it is a parameter of the model, a
  function of the mesh, the element orders and the boundary classification.
\<close>

type_synonym dof_enumeration = "mesh \<Rightarrow> (element \<Rightarrow> int option) \<Rightarrow> (cint \<Rightarrow> BCType) \<Rightarrow> cint"

text \<open>
  Modelled from the spec: the constructor of \<open>H1Space\<close> is library code that is not among
  the source files; the drivers pass it the mesh, the boundary callbacks and the initial
  polynomial degree of all mesh elements.
\<close>

definition H1Space :: "dof_enumeration \<Rightarrow> mesh_var \<Rightarrow> mesh \<Rightarrow> (cint \<Rightarrow> BCType) \<Rightarrow> int \<Rightarrow> space" where
  "H1Space enum mv m bc p_init =
     (let ord = (\<lambda>e. if e \<in> set m then Some p_init else None)
      in \<lparr>space_mesh = mv, bc_types = bc, elem_order = ord, ndof = enum m ord bc\<rparr>)"

text \<open>
  Modelled from the spec: \<open>Space::dup\<close> is library code that is not among the source
  files; the spec (sections 4.1 and 6) gives \<open>duplicate_onto(Mesh) -> Space\<close>: a new space
  of the same kind on the given mesh. Every element of that mesh starts with the order of
  its ancestor in the duplicated space.
\<close>

definition space_dup :: "dof_enumeration \<Rightarrow> space \<Rightarrow> mesh_var \<Rightarrow> mesh \<Rightarrow> space" where
  "space_dup enum sp mv m =
     (let ord = (\<lambda>e. if e \<in> set m then inherited_order (elem_order sp) e else None)
      in \<lparr>space_mesh = mv, bc_types = bc_types sp, elem_order = ord,
          ndof = enum m ord (bc_types sp)\<rparr>)"

text \<open>
  Modelled from the spec: \<open>Space::copy_orders\<close> is library code that is not among the
  source files; the spec (sections 4.1 and 6) gives \<open>copy_orders(sourceSpace, increment)\<close>:
  every element of the space's mesh gets the order of the source space there, increased by
  the increment. The mesh of the space is passed with it.
\<close>

definition copy_orders :: "dof_enumeration \<Rightarrow> space \<Rightarrow> mesh \<Rightarrow> space \<Rightarrow> int \<Rightarrow> space" where
  "copy_orders enum sp m src inc =
     (let ord = (\<lambda>e. if e \<in> set m
                     then map_option (\<lambda>p. p + inc) (inherited_order (elem_order src) e)
                     else None)
      in sp\<lparr>elem_order := ord, ndof := enum m ord (bc_types sp)\<rparr>)"

section \<open>The coarse and the reference problem\<close>

record coarse =
  u_mesh :: mesh
  v_mesh :: mesh
  u_space :: space
  v_space :: space

record reference =
  ref_u_mesh :: mesh
  ref_v_mesh :: mesh
  ref_u_space :: space
  ref_v_space :: space

text \<open>
  The reference problem setup of the two-component drivers: copy the coarse meshes, refine
  all elements of the copies, duplicate the coarse spaces onto the copies, and copy the
  orders with \<open>order_increase = 1\<close>.
\<close>

definition build_reference :: "dof_enumeration \<Rightarrow> coarse \<Rightarrow> reference" where
  "build_reference enum c =
     (let ref_u_mesh0 = mesh_copy (u_mesh c);
          ref_v_mesh0 = mesh_copy (v_mesh c);
          ref_u_mesh1 = refine_all_elements ref_u_mesh0;
          ref_v_mesh1 = refine_all_elements ref_v_mesh0;
          ref_u_space0 = space_dup enum (u_space c) Ref_u_mesh ref_u_mesh1;
          ref_v_space0 = space_dup enum (v_space c) Ref_v_mesh ref_v_mesh1;
          order_increase = 1;
          ref_u_space1 = copy_orders enum ref_u_space0 ref_u_mesh1 (u_space c) order_increase;
          ref_v_space1 = copy_orders enum ref_v_space0 ref_v_mesh1 (v_space c) order_increase
      in \<lparr>ref_u_mesh = ref_u_mesh1, ref_v_mesh = ref_v_mesh1,
          ref_u_space = ref_u_space1, ref_v_space = ref_v_space1\<rparr>)"

section \<open>The library behind the two-component drivers\<close>

text \<open>
  The solver, the projector, the error estimator and the refinement step are library code
  that is not among the source files. They are parameters of the model, each a function of
  the objects the driver passes to it.

  Modelled from the spec: \<open>solve_linear\<close> fails with a SolverError when the system is
  singular or the factorization fails (section 4.2), and the failure is propagated to the
  caller; otherwise it gives one solution per component.
\<close>

datatype solver_error = SolverError

record ('sol, 'hp) library =
  assign_dofs :: dof_enumeration
  solve_linear :: "reference \<Rightarrow> solver_error + ('sol \<times> 'sol)"
  project_global :: "coarse \<Rightarrow> 'sol \<times> 'sol \<Rightarrow> 'sol \<times> 'sol"
  calc_err_est :: "coarse \<Rightarrow> 'sol \<times> 'sol \<Rightarrow> 'sol \<times> 'sol \<Rightarrow> double \<times> 'hp"
  adapt :: "'hp \<Rightarrow> double \<Rightarrow> cint \<Rightarrow> cint \<Rightarrow> coarse \<Rightarrow> bool \<times> coarse"

text \<open>
  \<open>calc_err_est\<close> stands for the driver's expression \<open>hp.calc_elem_errors(...) * 100\<close>
  (\<open>hp.calc_error(...) * 100\<close> in the older drivers) together with the state of the object
  \<open>hp\<close> that \<open>adapt\<close> uses afterwards.
\<close>

text \<open>The library calls and the stopping checks of a run, in program order.\<close>

datatype event =
  Ev_build_reference
  | Ev_solve_linear
  | Ev_project_global
  | Ev_calc_error
  | Ev_check_stop
  | Ev_adapt
  | Ev_check_ndof
  | Ev_solve_coarse
  | Ev_exact_error
  | Ev_solve_fine
  | Ev_assign_dofs

record 'sol driver_state =
  cs :: coarse
  u_sln :: "'sol option"
  v_sln :: "'sol option"
  ref_u_sln :: "'sol option"
  ref_v_sln :: "'sol option"
  as :: cint
  done_flag :: bool
  trace :: "event list"

definition log_event :: "event \<Rightarrow> 'sol driver_state \<Rightarrow> 'sol driver_state" where
  "log_event ev s = s\<lparr>trace := trace s @ [ev]\<rparr>"

text \<open>
  A run of an adaptivity loop with a bound on the number of iterations: it has finished,
  it was aborted by a solver failure, or it is still running when the bound is reached.
\<close>

datatype 'a outcome = Finished 'a | Aborted solver_error 'a | Running 'a

fun outcome_state :: "'a outcome \<Rightarrow> 'a" where
  "outcome_state (Finished s) = s"
| "outcome_state (Aborted e s) = s"
| "outcome_state (Running s) = s"

section \<open>The crack driver\<close>

definition crack_INIT_REF_NUM :: nat where
  "crack_INIT_REF_NUM = 0"

definition crack_P_INIT :: int where
  "crack_P_INIT = 2"

definition crack_MULTI :: bool where
  "crack_MULTI = True"

definition crack_THRESHOLD_MULTI :: double where
  "crack_THRESHOLD_MULTI = Finite 0.35"

definition crack_THRESHOLD_SINGLE :: double where
  "crack_THRESHOLD_SINGLE = Finite 0.7"

definition crack_STRATEGY :: cint where
  "crack_STRATEGY = 0"

definition crack_MESH_REGULARITY :: cint where
  "crack_MESH_REGULARITY = - 1"

definition crack_ERR_STOP :: double where
  "crack_ERR_STOP = Finite 0.5"

definition crack_NDOF_STOP :: cint where
  "crack_NDOF_STOP = 60000"

definition ERROR_SUCCESS :: cint where
  "ERROR_SUCCESS = 0"

definition ERROR_FAILURE :: cint where
  "ERROR_FAILURE = - 1"

text \<open>
  The start of \<open>main\<close>: the loaded mesh is refined \<open>INIT_REF_NUM\<close> times, copied for the
  second component, and both spaces get the initial order. Loading the mesh file is outside
  the model: the loaded mesh is the input.
\<close>

definition crack_init :: "('sol, 'hp) library \<Rightarrow> mesh \<Rightarrow> 'sol driver_state" where
  "crack_init L loaded =
     (let um = (refine_all_elements ^^ crack_INIT_REF_NUM) loaded;
          vm = mesh_copy um;
          us = H1Space (assign_dofs L) U_mesh um bc_types_xy crack_P_INIT;
          vs = (if crack_MULTI
                then H1Space (assign_dofs L) V_mesh vm bc_types_xy crack_P_INIT
                else H1Space (assign_dofs L) U_mesh um bc_types_xy crack_P_INIT)
      in \<lparr>cs = \<lparr>u_mesh = um, v_mesh = vm, u_space = us, v_space = vs\<rparr>,
          u_sln = None, v_sln = None, ref_u_sln = None, ref_v_sln = None,
          as = 1, done_flag = False, trace = []\<rparr>)"

text \<open>
  The stopping check and the refinement step at the end of an iteration of the crack
  driver.
\<close>

definition crack_check_and_adapt ::
  "('sol, 'hp) library \<Rightarrow> double \<Rightarrow> 'hp \<Rightarrow> 'sol driver_state \<Rightarrow> 'sol driver_state" where
  "crack_check_and_adapt L err_est hp s =
     (let s1 = log_event Ev_check_stop s
      in if double_less err_est crack_ERR_STOP
            \<or> crack_NDOF_STOP \<le>s get_num_dofs (u_space (cs s1)) + get_num_dofs (v_space (cs s1))
         then s1\<lparr>done_flag := True\<rparr>
         else
           (let (d, c') = adapt L hp
                            (if crack_MULTI then crack_THRESHOLD_MULTI else crack_THRESHOLD_SINGLE)
                            crack_STRATEGY crack_MESH_REGULARITY (cs s1);
                s2 = log_event Ev_adapt (s1\<lparr>cs := c', done_flag := d\<rparr>);
                s3 = log_event Ev_check_ndof s2
            in if crack_NDOF_STOP \<le>s get_num_dofs (u_space (cs s3)) + get_num_dofs (v_space (cs s3))
               then s3\<lparr>done_flag := True\<rparr>
               else s3))"

text \<open>
  The first part of the body of the do-while loop of the crack driver: the reference
  problem, its solution, the projection on the coarse spaces and the error estimate.
\<close>

definition crack_solve_estimate ::
  "('sol, 'hp) library \<Rightarrow> 'sol driver_state
     \<Rightarrow> solver_error \<times> 'sol driver_state + double \<times> 'hp \<times> 'sol driver_state" where
  "crack_solve_estimate L s =
     (let r = build_reference (assign_dofs L) (cs s);
          s1 = log_event Ev_solve_linear (log_event Ev_build_reference s)
      in case solve_linear L r of
           Inl e \<Rightarrow> Inl (e, s1)
         | Inr (ru, rv) \<Rightarrow>
             (let s2 = s1\<lparr>ref_u_sln := Some ru, ref_v_sln := Some rv\<rparr>;
                  (u, v) = project_global L (cs s2) (ru, rv);
                  s3 = log_event Ev_project_global (s2\<lparr>u_sln := Some u, v_sln := Some v\<rparr>);
                  (err_est, hp) = calc_err_est L (cs s3) (u, v) (ru, rv);
                  s4 = log_event Ev_calc_error s3
              in Inr (err_est, hp, s4)))"

text \<open>One pass through the body of the do-while loop of the crack driver.\<close>

definition crack_iteration ::
  "('sol, 'hp) library \<Rightarrow> 'sol driver_state \<Rightarrow> solver_error \<times> 'sol driver_state + 'sol driver_state" where
  "crack_iteration L s =
     (case crack_solve_estimate L s of
        Inl (e, s1) \<Rightarrow> Inl (e, s1)
      | Inr (err_est, hp, s4) \<Rightarrow>
          (let s5 = crack_check_and_adapt L err_est hp s4
           in Inr (s5\<lparr>as := as s5 + 1\<rparr>)))"

text \<open>The do-while loop: the body runs, then \<open>done\<close> is tested.\<close>

fun crack_loop ::
  "('sol, 'hp) library \<Rightarrow> nat \<Rightarrow> 'sol driver_state \<Rightarrow> 'sol driver_state outcome" where
  "crack_loop L 0 s = Running s"
| "crack_loop L (Suc n) s =
     (case crack_iteration L s of
        Inl (e, s') \<Rightarrow> Aborted e s'
      | Inr s' \<Rightarrow> if done_flag s' then Finished s' else crack_loop L n s')"

text \<open>
  The state after a number of passes through the loop body, each of which has completed
  and has not left the loop.
\<close>

fun crack_steps ::
  "('sol, 'hp) library \<Rightarrow> nat \<Rightarrow> 'sol driver_state \<Rightarrow> 'sol driver_state option" where
  "crack_steps L 0 s = Some s"
| "crack_steps L (Suc k) s =
     (case crack_iteration L s of
        Inl (e, s') \<Rightarrow> None
      | Inr s' \<Rightarrow> if done_flag s' then None else crack_steps L k s')"

text \<open>What \<open>main\<close> does after the loop: the DOF count of the test against the bound.\<close>

definition crack_exit_code :: "'sol driver_state \<Rightarrow> cint" where
  "crack_exit_code s =
     (let ndof = get_num_dofs_tuple [u_space (cs s), v_space (cs s)];
          ndof_allowed = 650
      in if ndof \<le>s ndof_allowed then ERROR_SUCCESS else ERROR_FAILURE)"

text \<open>
  The result of \<open>main\<close>: it returns an exit code, or an uncaught solver failure ends the
  process, or the loop has not left within the bound.
\<close>

datatype main_result = Returned cint | Uncaught solver_error | Not_returned

definition crack_main :: "('sol, 'hp) library \<Rightarrow> nat \<Rightarrow> mesh \<Rightarrow> main_result" where
  "crack_main L fuel loaded =
     (case crack_loop L fuel (crack_init L loaded) of
        Finished s \<Rightarrow> Returned (crack_exit_code s)
      | Aborted e s \<Rightarrow> Uncaught e
      | Running s \<Rightarrow> Not_returned)"

section \<open>The two-component driver with the convergence graphs (part 000)\<close>

definition part_000_P_INIT :: int where
  "part_000_P_INIT = 2"

definition part_000_MULTI :: bool where
  "part_000_MULTI = True"

definition part_000_THRESHOLD :: double where
  "part_000_THRESHOLD = Finite 0.3"

definition part_000_STRATEGY :: cint where
  "part_000_STRATEGY = 1"

definition part_000_MESH_REGULARITY :: cint where
  "part_000_MESH_REGULARITY = - 1"

definition part_000_ERR_STOP :: double where
  "part_000_ERR_STOP = Finite 0.5"

definition part_000_NDOF_STOP :: cint where
  "part_000_NDOF_STOP = 60000"

text \<open>
  The first part of the loop body: as in the crack driver (the projection takes no norms,
  the estimator is an \<open>H1Adapt\<close>, and the views and graphs only observe).
\<close>

definition part_000_solve_estimate ::
  "('sol, 'hp) library \<Rightarrow> 'sol driver_state
     \<Rightarrow> solver_error \<times> 'sol driver_state + double \<times> 'hp \<times> 'sol driver_state" where
  "part_000_solve_estimate L s =
     (let r = build_reference (assign_dofs L) (cs s);
          s1 = log_event Ev_solve_linear (log_event Ev_build_reference s)
      in case solve_linear L r of
           Inl e \<Rightarrow> Inl (e, s1)
         | Inr (ru, rv) \<Rightarrow>
             (let s2 = s1\<lparr>ref_u_sln := Some ru, ref_v_sln := Some rv\<rparr>;
                  (u, v) = project_global L (cs s2) (ru, rv);
                  s3 = log_event Ev_project_global (s2\<lparr>u_sln := Some u, v_sln := Some v\<rparr>);
                  (err_est, hp) = calc_err_est L (cs s3) (u, v) (ru, rv);
                  s4 = log_event Ev_calc_error s3
              in Inr (err_est, hp, s4)))"

text \<open>
  The end of the loop body: the check before the refinement step looks at the error
  estimate only; the DOF count is tested after \<open>adapt\<close>.
\<close>

definition part_000_check_and_adapt ::
  "('sol, 'hp) library \<Rightarrow> double \<Rightarrow> 'hp \<Rightarrow> 'sol driver_state \<Rightarrow> 'sol driver_state" where
  "part_000_check_and_adapt L err_est hp s =
     (let s1 = log_event Ev_check_stop s
      in if double_less err_est part_000_ERR_STOP
         then s1\<lparr>done_flag := True\<rparr>
         else
           (let (d, c') = adapt L hp part_000_THRESHOLD part_000_STRATEGY
                            part_000_MESH_REGULARITY (cs s1);
                s2 = log_event Ev_adapt (s1\<lparr>cs := c', done_flag := d\<rparr>);
                s3 = log_event Ev_check_ndof s2
            in if part_000_NDOF_STOP \<le>s get_num_dofs (u_space (cs s3)) + get_num_dofs (v_space (cs s3))
               then s3\<lparr>done_flag := True\<rparr>
               else s3))"

definition part_000_iteration ::
  "('sol, 'hp) library \<Rightarrow> 'sol driver_state \<Rightarrow> solver_error \<times> 'sol driver_state + 'sol driver_state" where
  "part_000_iteration L s =
     (case part_000_solve_estimate L s of
        Inl (e, s1) \<Rightarrow> Inl (e, s1)
      | Inr (err_est, hp, s4) \<Rightarrow>
          (let s5 = part_000_check_and_adapt L err_est hp s4
           in Inr (s5\<lparr>as := as s5 + 1\<rparr>)))"

fun part_000_loop ::
  "('sol, 'hp) library \<Rightarrow> nat \<Rightarrow> 'sol driver_state \<Rightarrow> 'sol driver_state outcome" where
  "part_000_loop L 0 s = Running s"
| "part_000_loop L (Suc n) s =
     (case part_000_iteration L s of
        Inl (e, s') \<Rightarrow> Aborted e s'
      | Inr s' \<Rightarrow> if done_flag s' then Finished s' else part_000_loop L n s')"

fun part_000_steps ::
  "('sol, 'hp) library \<Rightarrow> nat \<Rightarrow> 'sol driver_state \<Rightarrow> 'sol driver_state option" where
  "part_000_steps L 0 s = Some s"
| "part_000_steps L (Suc k) s =
     (case part_000_iteration L s of
        Inl (e, s') \<Rightarrow> None
      | Inr s' \<Rightarrow> if done_flag s' then None else part_000_steps L k s')"

section \<open>The one-component driver with the exact solution (part 001)\<close>

definition part_001_THRESHOLD :: double where
  "part_001_THRESHOLD = Finite 0.3"

definition part_001_STRATEGY :: cint where
  "part_001_STRATEGY = 0"

definition part_001_MESH_REGULARITY :: cint where
  "part_001_MESH_REGULARITY = - 1"

definition part_001_ERR_STOP :: double where
  "part_001_ERR_STOP = Finite 0.0001"

definition part_001_NDOF_STOP :: cint where
  "part_001_NDOF_STOP = 100000"

text \<open>
  This driver uses the older interface of the library: a \<open>LinSystem\<close> for the coarse
  problem, a \<open>RefSystem\<close> built from it for the fine problem, \<open>h1_error\<close> against the exact
  solution, an \<open>H1AdaptHP\<close> for the estimate and the refinement, and \<open>assign_dofs\<close> for the
  enumeration. These are library code that is not among the source files: parameters of
  the model.

  Modelled from the spec: each of the two solves fails with a SolverError when the system
  is singular or the factorization fails (section 4.2), and the failure is propagated.
\<close>

record ('sol, 'hp) old_library =
  old_assign_dofs :: "mesh \<Rightarrow> space \<Rightarrow> cint"
  ls_solve :: "mesh \<Rightarrow> space \<Rightarrow> solver_error + 'sol"
  h1_error_pct :: "'sol \<Rightarrow> mesh \<Rightarrow> double"
  rs_solve :: "mesh \<Rightarrow> space \<Rightarrow> solver_error + 'sol"
  calc_error_pct :: "mesh \<Rightarrow> space \<Rightarrow> 'sol \<Rightarrow> 'sol \<Rightarrow> double \<times> 'hp"
  hp_adapt :: "'hp \<Rightarrow> double \<Rightarrow> cint \<Rightarrow> cint \<Rightarrow> mesh \<Rightarrow> space \<Rightarrow> mesh \<times> space"

record 'sol single_state =
  s_mesh :: mesh
  s_space :: space
  s_ndof :: cint
  sln_coarse :: "'sol option"
  sln_fine :: "'sol option"
  it :: cint
  s_done :: bool
  s_trace :: "event list"

definition log_single :: "event \<Rightarrow> 'sol single_state \<Rightarrow> 'sol single_state" where
  "log_single ev s = s\<lparr>s_trace := s_trace s @ [ev]\<rparr>"

text \<open>
  The first part of the loop body: the coarse solve, the error against the exact solution
  (reported only), the fine solve and the error estimate.
\<close>

definition part_001_solve_estimate ::
  "('sol, 'hp) old_library \<Rightarrow> 'sol single_state
     \<Rightarrow> solver_error \<times> 'sol single_state + double \<times> 'hp \<times> 'sol single_state" where
  "part_001_solve_estimate L s =
     (let s0 = s\<lparr>it := it s + 1\<rparr>;
          s1 = log_single Ev_solve_coarse s0
      in case ls_solve L (s_mesh s1) (s_space s1) of
           Inl e \<Rightarrow> Inl (e, s1)
         | Inr c \<Rightarrow>
             (let s2 = s1\<lparr>sln_coarse := Some c\<rparr>;
                  error = h1_error_pct L c (s_mesh s2);
                  s3 = log_single Ev_exact_error s2;
                  s4 = log_single Ev_solve_fine s3
              in case rs_solve L (s_mesh s4) (s_space s4) of
                   Inl e \<Rightarrow> Inl (e, s4)
                 | Inr f \<Rightarrow>
                     (let s5 = s4\<lparr>sln_fine := Some f\<rparr>;
                          (err_est, hp) = calc_error_pct L (s_mesh s5) (s_space s5) c f;
                          s6 = log_single Ev_calc_error s5
                      in Inr (err_est, hp, s6))))"

text \<open>
  The end of the loop body: the result of \<open>adapt\<close> is not used, the degrees of freedom are
  enumerated again and their number is tested.
\<close>

definition part_001_check_and_adapt ::
  "('sol, 'hp) old_library \<Rightarrow> double \<Rightarrow> 'hp \<Rightarrow> 'sol single_state \<Rightarrow> 'sol single_state" where
  "part_001_check_and_adapt L err_est hp s =
     (let s1 = log_single Ev_check_stop s
      in if double_less err_est part_001_ERR_STOP
         then s1\<lparr>s_done := True\<rparr>
         else
           (let (m', sp') = hp_adapt L hp part_001_THRESHOLD part_001_STRATEGY
                              part_001_MESH_REGULARITY (s_mesh s1) (s_space s1);
                s2 = log_single Ev_adapt (s1\<lparr>s_mesh := m', s_space := sp'\<rparr>);
                n = old_assign_dofs L (s_mesh s2) (s_space s2);
                s3 = log_single Ev_assign_dofs
                       (s2\<lparr>s_space := (s_space s2)\<lparr>ndof := n\<rparr>, s_ndof := n\<rparr>);
                s4 = log_single Ev_check_ndof s3
            in if part_001_NDOF_STOP \<le>s s_ndof s4
               then s4\<lparr>s_done := True\<rparr>
               else s4))"

definition part_001_iteration ::
  "('sol, 'hp) old_library \<Rightarrow> 'sol single_state \<Rightarrow> solver_error \<times> 'sol single_state + 'sol single_state" where
  "part_001_iteration L s =
     (case part_001_solve_estimate L s of
        Inl (e, s1) \<Rightarrow> Inl (e, s1)
      | Inr (err_est, hp, s6) \<Rightarrow> Inr (part_001_check_and_adapt L err_est hp s6))"

fun part_001_loop ::
  "('sol, 'hp) old_library \<Rightarrow> nat \<Rightarrow> 'sol single_state \<Rightarrow> 'sol single_state outcome" where
  "part_001_loop L 0 s = Running s"
| "part_001_loop L (Suc n) s =
     (case part_001_iteration L s of
        Inl (e, s') \<Rightarrow> Aborted e s'
      | Inr s' \<Rightarrow> if s_done s' then Finished s' else part_001_loop L n s')"

section \<open>The refinement strategies\<close>

text \<open>
  The errors of the elements, as the error estimator leaves them for the refinement step.
  The element errors and the threshold are taken as real numbers here.
\<close>

type_synonym element_errors = "(element \<times> real) list"

fun max_error :: "element_errors \<Rightarrow> real" where
  "max_error [] = 0"
| "max_error ((e, err) # rest) = fold max (map snd rest) err"

definition total_error :: "element_errors \<Rightarrow> real" where
  "total_error errs = sum_list (map snd errs)"

text \<open>
  Modelled from the spec: \<open>Adapt::adapt\<close> is library code that is not among the source
  files; the spec (section 4.6) and the comment at \<open>STRATEGY\<close> in the drivers give the
  strategy "relative-to-max" (\<open>STRATEGY = 1\<close>): refine every element whose error exceeds
  the threshold times the maximum single-element error.
\<close>

definition refine_relative_to_max :: "real \<Rightarrow> element_errors \<Rightarrow> element list" where
  "refine_relative_to_max thr errs =
     map fst (filter (\<lambda>(e, err). thr * max_error errs < err) errs)"

text \<open>
  Modelled from the spec: \<open>Adapt::adapt\<close> is library code that is not among the source
  files; the spec (section 4.6) gives the strategy "absolute" (\<open>STRATEGY = 2\<close>): refine every
  element whose error exceeds the threshold outright.
\<close>

definition refine_absolute :: "real \<Rightarrow> element_errors \<Rightarrow> element list" where
  "refine_absolute thr errs = map fst (filter (\<lambda>(e, err). thr < err) errs)"

text \<open>
  Modelled from the spec: \<open>Adapt::adapt\<close> is library code that is not among the source
  files; the spec (section 4.6) gives the strategy "cumulative" (\<open>STRATEGY = 0\<close>): sort the
  elements by descending error; refine elements in order until the accumulated error
  processed reaches the square root of the threshold times the total error; elements of
  equal error are refined together. The total error is the sum of the element errors, the
  quantity that is accumulated. \<open>take_cumulative\<close> walks the sorted list with the limit,
  the error processed so far and the error of the element before.
\<close>

definition sort_by_error_desc :: "element_errors \<Rightarrow> element_errors" where
  "sort_by_error_desc errs = rev (sort_key snd errs)"

fun take_cumulative :: "real \<Rightarrow> real \<Rightarrow> real option \<Rightarrow> element_errors \<Rightarrow> element_errors" where
  "take_cumulative limit processed prev [] = []"
| "take_cumulative limit processed prev ((e, err) # rest) =
     (if limit \<le> processed \<and> prev \<noteq> Some err then []
      else (e, err) # take_cumulative limit (processed + err) (Some err) rest)"

definition cumulative_selection :: "real \<Rightarrow> element_errors \<Rightarrow> element_errors" where
  "cumulative_selection thr errs =
     take_cumulative (sqrt thr * total_error errs) 0 None (sort_by_error_desc errs)"

definition refine_cumulative :: "real \<Rightarrow> element_errors \<Rightarrow> element list" where
  "refine_cumulative thr errs = map fst (cumulative_selection thr errs)"

text \<open>
  Modelled from the spec: the choice of the strategy by the number the drivers pass to
  \<open>adapt\<close>; the spec and the drivers' comments name the strategies 0, 1 and 2 only.
\<close>

definition select_elements :: "cint \<Rightarrow> double \<Rightarrow> element_errors \<Rightarrow> element list option" where
  "select_elements strategy threshold errs =
     (case threshold of
        Finite thr \<Rightarrow>
          (if strategy = 0 then Some (refine_cumulative thr errs)
           else if strategy = 1 then Some (refine_relative_to_max thr errs)
           else if strategy = 2 then Some (refine_absolute thr errs)
           else None)
      | _ \<Rightarrow> None)"

section \<open>The error estimate and the projection\<close>

text \<open>
  A solution is taken by its restriction to each element, a vector of a real normed space;
  the norm of the restriction stands for the norm the error form induces on the element.
\<close>

type_synonym 'v field = "element \<Rightarrow> 'v"

text \<open>
  Modelled from the spec: the error estimator (\<open>calc_elem_errors\<close>, \<open>calc_error\<close>) is
  library code that is not among the source files; the spec (section 4.4) has it evaluate,
  for each coarse element, the error form of the difference of the reference and the coarse
  solution against itself. The error of an element is the norm of that difference on the
  element; its square is the value of the form.
\<close>

definition solution_errors ::
  "mesh \<Rightarrow> ('v::real_normed_vector) field \<Rightarrow> 'v field \<Rightarrow> element_errors" where
  "solution_errors m coarse_sln ref_sln = map (\<lambda>e. (e, norm (ref_sln e - coarse_sln e))) m"

text \<open>
  Modelled from the spec: the error estimator is library code that is not among the source
  files; the spec (section 4.4) has it accumulate the squared element errors into a total
  squared error.
\<close>

definition squared_error_sum :: "element_errors \<Rightarrow> real" where
  "squared_error_sum errs = fold (\<lambda>(e, x) acc. acc + x\<^sup>2) errs 0"

text \<open>
  Modelled from the spec: the error estimator is library code that is not among the source
  files; the spec (section 4.4) has it accumulate a normalization term from the reference
  solution alongside the squared errors.
\<close>

definition reference_norm :: "mesh \<Rightarrow> ('v::real_normed_vector) field \<Rightarrow> real" where
  "reference_norm m ref_sln = sqrt (fold (\<lambda>e acc. acc + (norm (ref_sln e))\<^sup>2) m 0)"

text \<open>
  Modelled from the spec: the value the error estimator returns is library code that is
  not among the source files; the spec (section 4.4) gives the relative total error as the
  square root of the sum of the squared element errors, divided by the normalization. It
  is a real number here.
\<close>

definition calc_elem_errors :: "element_errors \<Rightarrow> real \<Rightarrow> real" where
  "calc_elem_errors errs normalization = sqrt (squared_error_sum errs) / normalization"

text \<open>The drivers' expression \<open>hp.calc_elem_errors(...) * 100\<close>, the reported total error.\<close>

definition err_est_percent :: "element_errors \<Rightarrow> real \<Rightarrow> real" where
  "err_est_percent errs normalization = calc_elem_errors errs normalization * 100"


text \<open>
  Modelled from the spec: \<open>project_global\<close> is library code that is not among the source
  files; the spec (section 4.3) has it compute the function of the coarse space that
  minimises the norm of the difference to the reference solution. The coarse space is the
  set of the functions it represents, the norm of a difference is taken over the elements
  of the mesh, and a projection is a minimiser in that set.
\<close>

definition field_distance ::
  "mesh \<Rightarrow> ('v::real_normed_vector) field \<Rightarrow> 'v field \<Rightarrow> real" where
  "field_distance m f ref_sln = sqrt (squared_error_sum (solution_errors m f ref_sln))"

definition is_projection ::
  "mesh \<Rightarrow> ('v::real_normed_vector) field set \<Rightarrow> 'v field \<Rightarrow> 'v field \<Rightarrow> bool" where
  "is_projection m S ref_sln u \<longleftrightarrow>
     u \<in> S \<and> (\<forall>v\<in>S. field_distance m u ref_sln \<le> field_distance m v ref_sln)"

section \<open>Well-formed coarse problems\<close>

text \<open>
  In a mesh no son of an active element is active. A space fits its mesh when every
  element of the mesh has an order in the space and the sons of the element have none.
\<close>

definition no_active_sons :: "mesh \<Rightarrow> bool" where
  "no_active_sons m \<longleftrightarrow> (\<forall>e\<in>set m. \<forall>i\<in>set [0, 1, 2, 3]. Son e i \<notin> set m)"

definition space_fits_mesh :: "space \<Rightarrow> mesh \<Rightarrow> bool" where
  "space_fits_mesh sp m \<longleftrightarrow>
     (\<forall>e\<in>set m. elem_order sp e \<noteq> None
        \<and> (\<forall>i\<in>set [0, 1, 2, 3]. elem_order sp (Son e i) = None))"

definition well_formed_coarse :: "coarse \<Rightarrow> bool" where
  "well_formed_coarse c \<longleftrightarrow>
     space_fits_mesh (u_space c) (u_mesh c) \<and> space_fits_mesh (v_space c) (v_mesh c)"

text \<open>
  The refinement step is a parameter; this is what a run needs of it to keep the coarse
  problem well formed.
\<close>

definition adapt_keeps_well_formed :: "('sol, 'hp) library \<Rightarrow> bool" where
  "adapt_keeps_well_formed L \<longleftrightarrow>
     (\<forall>hp thr strat reg c.
        well_formed_coarse c \<longrightarrow> well_formed_coarse (snd (adapt L hp thr strat reg c)))"

section \<open>A small library for concrete runs\<close>

text \<open>
  A library to run the drivers on: one degree of freedom per element, a solver that fails
  on an empty reference mesh, an error estimate of 5 percent below four elements and 0.25
  percent from four elements on, and a refinement step that splits every element.
\<close>

definition example_library :: "(unit, unit) library" where
  "example_library =
     \<lparr>assign_dofs = (\<lambda>m ord bc. of_nat (length m)),
      solve_linear = (\<lambda>r. if ref_u_mesh r = [] then Inl SolverError else Inr ((), ())),
      project_global = (\<lambda>c rs. ((), ())),
      calc_err_est = (\<lambda>c sl rs. (if length (u_mesh c) < 4 then Finite 5 else Finite 0.25, ())),
      adapt = (\<lambda>hp thr strat reg c.
                 (False,
                  \<lparr>u_mesh = refine_all_elements (u_mesh c),
                   v_mesh = refine_all_elements (v_mesh c),
                   u_space = (u_space c)\<lparr>ndof := ndof (u_space c) + of_nat (3 * length (u_mesh c))\<rparr>,
                   v_space = (v_space c)\<lparr>ndof := ndof (v_space c) + of_nat (3 * length (v_mesh c))\<rparr>\<rparr>))\<rparr>"

text \<open>The same library with a solver that fails on more than four reference elements.\<close>

definition failing_library :: "(unit, unit) library" where
  "failing_library =
     example_library
       \<lparr>solve_linear := (\<lambda>r. if 4 < length (ref_u_mesh r) then Inl SolverError else Inr ((), ()))\<rparr>"

text \<open>
  A state at the start of a run: one base element of order 2 in each mesh, and the given
  number of degrees of freedom in each space.
\<close>

definition example_space :: "mesh_var \<Rightarrow> cint \<Rightarrow> space" where
  "example_space mv n =
     \<lparr>space_mesh = mv, bc_types = bc_types_xy,
      elem_order = (\<lambda>e. if e = Base 0 then Some 2 else None), ndof = n\<rparr>"

definition example_coarse :: "cint \<Rightarrow> coarse" where
  "example_coarse n =
     \<lparr>u_mesh = [Base 0], v_mesh = [Base 0],
      u_space = example_space U_mesh n, v_space = example_space V_mesh n\<rparr>"

definition example_state :: "cint \<Rightarrow> unit driver_state" where
  "example_state n =
     \<lparr>cs = example_coarse n,
      u_sln = None, v_sln = None, ref_u_sln = None, ref_v_sln = None,
      as = 1, done_flag = False, trace = []\<rparr>"

text \<open>The same state after the solve, the projection and the error estimate.\<close>

definition example_estimated :: "cint \<Rightarrow> unit driver_state" where
  "example_estimated n =
     (example_state n)
       \<lparr>u_sln := Some (), v_sln := Some (), ref_u_sln := Some (), ref_v_sln := Some (),
        trace := [Ev_build_reference, Ev_solve_linear, Ev_project_global, Ev_calc_error]\<rparr>"

text \<open>The state after one pass of \<open>example_state 1\<close> through the loop body.\<close>

definition example_adapted :: "unit driver_state" where
  "example_adapted =
     \<lparr>cs = \<lparr>u_mesh = [Son (Base 0) 0, Son (Base 0) 1, Son (Base 0) 2, Son (Base 0) 3],
             v_mesh = [Son (Base 0) 0, Son (Base 0) 1, Son (Base 0) 2, Son (Base 0) 3],
             u_space = example_space U_mesh 4, v_space = example_space V_mesh 4\<rparr>,
      u_sln = Some (), v_sln = Some (), ref_u_sln = Some (), ref_v_sln = Some (),
      as = 2, done_flag = False,
      trace = [Ev_build_reference, Ev_solve_linear, Ev_project_global, Ev_calc_error,
               Ev_check_stop, Ev_adapt, Ev_check_ndof]\<rparr>"

text \<open>
  A library for the one-component driver: one degree of freedom per element, solves that
  succeed, an error estimate of 5 percent below four elements and 0.00005 percent from four
  elements on, and a refinement step that splits every element.
\<close>

definition example_old_library :: "(unit, unit) old_library" where
  "example_old_library =
     \<lparr>old_assign_dofs = (\<lambda>m sp. of_nat (length m)),
      ls_solve = (\<lambda>m sp. Inr ()),
      h1_error_pct = (\<lambda>c m. Finite 7),
      rs_solve = (\<lambda>m sp. Inr ()),
      calc_error_pct = (\<lambda>m sp c f. (if length m < 4 then Finite 5 else Finite 0.00005, ())),
      hp_adapt = (\<lambda>hp thr strat reg m sp. (refine_all_elements m, sp))\<rparr>"

definition example_single_state :: "mesh \<Rightarrow> unit single_state" where
  "example_single_state m =
     \<lparr>s_mesh = m, s_space = example_space The_mesh (of_nat (length m)),
      s_ndof = of_nat (length m), sln_coarse = None, sln_fine = None,
      it = 1, s_done = False, s_trace = []\<rparr>"

text \<open>
  The library of the concrete runs with a refinement step that splits every element and
  gives the sons the order of their element, and the state it leads to after one pass from
  \<open>example_state 1\<close>.
\<close>

definition tidy_library :: "(unit, unit) library" where
  "tidy_library =
     example_library
       \<lparr>adapt := (\<lambda>hp thr strat reg c.
                   (False,
                    \<lparr>u_mesh = refine_all_elements (u_mesh c),
                     v_mesh = refine_all_elements (v_mesh c),
                     u_space = copy_orders (\<lambda>m ord bc. of_nat (length m)) (u_space c)
                                 (refine_all_elements (u_mesh c)) (u_space c) 0,
                     v_space = copy_orders (\<lambda>m ord bc. of_nat (length m)) (v_space c)
                                 (refine_all_elements (v_mesh c)) (v_space c) 0\<rparr>))\<rparr>"

definition tidy_adapted :: "unit driver_state" where
  "tidy_adapted = outcome_state (crack_loop tidy_library (Suc 0) (example_state 1))"

section \<open>Properties of the crack driver\<close>

lemma get_num_dofs_tuple_pair:
  "get_num_dofs_tuple [a, b] = ndof a + ndof b"
  by (simp add: get_num_dofs_tuple_def get_num_dofs_def)

text \<open>
  C9: when the adaptivity loop of the crack test driver has finished, \<open>main\<close> returns 0
  (ERROR_SUCCESS) if and only if the final total coarse DOF count, the sum over the u and
  v spaces, is at most 650, and it returns -1 (ERROR_FAILURE) otherwise.
\<close>

theorem crack_main_exit_code:
  assumes "crack_loop L fuel (crack_init L loaded) = Finished s"
  shows "(crack_main L fuel loaded = Returned 0
            \<longleftrightarrow> ndof (u_space (cs s)) + ndof (v_space (cs s)) \<le>s 650)
         \<and> (\<not> ndof (u_space (cs s)) + ndof (v_space (cs s)) \<le>s 650
            \<longrightarrow> crack_main L fuel loaded = Returned (- 1))"
  using assms
  by (simp add: crack_main_def crack_exit_code_def get_num_dofs_tuple_pair
      ERROR_SUCCESS_def ERROR_FAILURE_def Let_def)

lemmas crack_consts =
  crack_INIT_REF_NUM_def crack_P_INIT_def crack_MULTI_def crack_THRESHOLD_MULTI_def
  crack_THRESHOLD_SINGLE_def crack_STRATEGY_def crack_MESH_REGULARITY_def crack_ERR_STOP_def
  crack_NDOF_STOP_def

lemmas model_defs =
  build_reference_def log_event_def H1Space_def mesh_copy_def refine_all_elements_def sons_def
  get_num_dofs_def space_dup_def copy_orders_def Let_def

lemma example_crack_run:
  "case crack_loop example_library (Suc (Suc 0)) (crack_init example_library [Base 0]) of
     Finished s \<Rightarrow> ndof (u_space (cs s)) + ndof (v_space (cs s)) = 8
   | Aborted e s \<Rightarrow> False
   | Running s \<Rightarrow> False"
  by (simp add: crack_init_def crack_iteration_def crack_solve_estimate_def
      crack_check_and_adapt_def example_library_def model_defs crack_consts)

theorem crack_main_exit_code_witness:
  "(\<exists>s. crack_loop example_library (Suc (Suc 0)) (crack_init example_library [Base 0]) = Finished s)
   \<and> crack_main example_library (Suc (Suc 0)) [Base 0] = Returned 0"
proof -
  obtain s where
    h: "crack_loop example_library (Suc (Suc 0)) (crack_init example_library [Base 0]) = Finished s"
    and d: "ndof (u_space (cs s)) + ndof (v_space (cs s)) = 8"
    using example_crack_run by (auto split: outcome.splits)
  from crack_main_exit_code [OF h] d have "crack_main example_library (Suc (Suc 0)) [Base 0] = Returned 0"
    by simp
  with h show ?thesis by blast
qed

section \<open>The stopping check\<close>

lemmas part_000_consts =
  part_000_P_INIT_def part_000_MULTI_def part_000_THRESHOLD_def part_000_STRATEGY_def
  part_000_MESH_REGULARITY_def part_000_ERR_STOP_def part_000_NDOF_STOP_def

lemmas example_defs =
  example_library_def example_state_def example_coarse_def example_space_def example_estimated_def

text \<open>
  C1, as the drivers have it: when the solve and the estimate of an iteration have
  succeeded, the crack driver leaves the loop without a refinement step exactly when the
  error estimate is below \<open>ERR_STOP\<close> or the summed DOF count is at least \<open>NDOF_STOP\<close>, and
  calls \<open>adapt\<close> otherwise. The driver of part 000 tests only the error estimate before the
  refinement step: below \<open>ERR_STOP\<close> it leaves the loop without a refinement step;
  otherwise it calls \<open>adapt\<close>, whatever the DOF count is, and is done when \<open>adapt\<close> says
  so or the DOF count after \<open>adapt\<close> is at least \<open>NDOF_STOP\<close>.
\<close>

theorem stopping_check:
  fixes L :: "('sol, 'hp) library"
  shows
  "(crack_solve_estimate L s = Inr (err_est, hp, s4) \<longrightarrow>
      (if double_less err_est crack_ERR_STOP
          \<or> crack_NDOF_STOP \<le>s ndof (u_space (cs s4)) + ndof (v_space (cs s4))
       then crack_loop L (Suc n) s
              = Finished (s4\<lparr>as := as s4 + 1, done_flag := True, trace := trace s4 @ [Ev_check_stop]\<rparr>)
       else (\<exists>s'. crack_iteration L s = Inr s'
               \<and> trace s' = trace s4 @ [Ev_check_stop, Ev_adapt, Ev_check_ndof]
               \<and> cs s' = snd (adapt L hp crack_THRESHOLD_MULTI crack_STRATEGY crack_MESH_REGULARITY (cs s4))
               \<and> (done_flag s' \<longleftrightarrow>
                    fst (adapt L hp crack_THRESHOLD_MULTI crack_STRATEGY crack_MESH_REGULARITY (cs s4))
                    \<or> crack_NDOF_STOP \<le>s ndof (u_space (cs s')) + ndof (v_space (cs s'))))))
   \<and> (part_000_solve_estimate L t = Inr (err_est, hp, t4) \<longrightarrow>
      (if double_less err_est part_000_ERR_STOP
       then part_000_loop L (Suc n) t
              = Finished (t4\<lparr>as := as t4 + 1, done_flag := True, trace := trace t4 @ [Ev_check_stop]\<rparr>)
       else (\<exists>t'. part_000_iteration L t = Inr t'
               \<and> trace t' = trace t4 @ [Ev_check_stop, Ev_adapt, Ev_check_ndof]
               \<and> cs t' = snd (adapt L hp part_000_THRESHOLD part_000_STRATEGY part_000_MESH_REGULARITY (cs t4))
               \<and> (done_flag t' \<longleftrightarrow>
                    fst (adapt L hp part_000_THRESHOLD part_000_STRATEGY part_000_MESH_REGULARITY (cs t4))
                    \<or> part_000_NDOF_STOP \<le>s ndof (u_space (cs t')) + ndof (v_space (cs t'))))))"
proof (intro conjI impI)
  assume h: "crack_solve_estimate L s = Inr (err_est, hp, s4)"
  show "if double_less err_est crack_ERR_STOP
          \<or> crack_NDOF_STOP \<le>s ndof (u_space (cs s4)) + ndof (v_space (cs s4))
       then crack_loop L (Suc n) s
              = Finished (s4\<lparr>as := as s4 + 1, done_flag := True, trace := trace s4 @ [Ev_check_stop]\<rparr>)
       else (\<exists>s'. crack_iteration L s = Inr s'
               \<and> trace s' = trace s4 @ [Ev_check_stop, Ev_adapt, Ev_check_ndof]
               \<and> cs s' = snd (adapt L hp crack_THRESHOLD_MULTI crack_STRATEGY crack_MESH_REGULARITY (cs s4))
               \<and> (done_flag s' \<longleftrightarrow>
                    fst (adapt L hp crack_THRESHOLD_MULTI crack_STRATEGY crack_MESH_REGULARITY (cs s4))
                    \<or> crack_NDOF_STOP \<le>s ndof (u_space (cs s')) + ndof (v_space (cs s'))))"
    using h
    by (auto simp: crack_iteration_def crack_check_and_adapt_def log_event_def get_num_dofs_def
        crack_MULTI_def Let_def split: prod.splits)
next
  assume h: "part_000_solve_estimate L t = Inr (err_est, hp, t4)"
  show "if double_less err_est part_000_ERR_STOP
       then part_000_loop L (Suc n) t
              = Finished (t4\<lparr>as := as t4 + 1, done_flag := True, trace := trace t4 @ [Ev_check_stop]\<rparr>)
       else (\<exists>t'. part_000_iteration L t = Inr t'
               \<and> trace t' = trace t4 @ [Ev_check_stop, Ev_adapt, Ev_check_ndof]
               \<and> cs t' = snd (adapt L hp part_000_THRESHOLD part_000_STRATEGY part_000_MESH_REGULARITY (cs t4))
               \<and> (done_flag t' \<longleftrightarrow>
                    fst (adapt L hp part_000_THRESHOLD part_000_STRATEGY part_000_MESH_REGULARITY (cs t4))
                    \<or> part_000_NDOF_STOP \<le>s ndof (u_space (cs t')) + ndof (v_space (cs t'))))"
    using h
    by (auto simp: part_000_iteration_def part_000_check_and_adapt_def log_event_def get_num_dofs_def
        Let_def split: prod.splits)
qed

lemma example_capped_estimate:
  "crack_solve_estimate example_library (example_state 30000)
     = Inr (Finite 5, (), example_estimated 30000)"
  "part_000_solve_estimate example_library (example_state 30000)
     = Inr (Finite 5, (), example_estimated 30000)"
  by (simp_all add: crack_solve_estimate_def part_000_solve_estimate_def example_defs model_defs)

text \<open>
  With 30000 degrees of freedom in each space and an error estimate of 5 percent, the
  driver of part 000 calls \<open>adapt\<close> although the DOF count has reached \<open>NDOF_STOP\<close>.
\<close>

theorem stopping_check_counterexample:
  "part_000_NDOF_STOP \<le>s ndof (u_space (cs (example_state 30000))) + ndof (v_space (cs (example_state 30000)))
   \<and> Ev_adapt \<in> set (trace (outcome_state (part_000_loop example_library (Suc 0) (example_state 30000))))"
  by (simp add: part_000_iteration_def part_000_solve_estimate_def part_000_check_and_adapt_def
      example_defs model_defs part_000_consts)

theorem stopping_check_witness:
  "crack_solve_estimate example_library (example_state 30000)
     = Inr (Finite 5, (), example_estimated 30000)
   \<and> part_000_solve_estimate example_library (example_state 30000)
     = Inr (Finite 5, (), example_estimated 30000)
   \<and> crack_loop example_library (Suc 0) (example_state 30000)
     = Finished ((example_estimated 30000)
         \<lparr>as := as (example_estimated 30000) + 1, done_flag := True,
          trace := trace (example_estimated 30000) @ [Ev_check_stop]\<rparr>)
   \<and> (\<exists>t'. part_000_iteration example_library (example_state 30000) = Inr t'
          \<and> trace t' = trace (example_estimated 30000) @ [Ev_check_stop, Ev_adapt, Ev_check_ndof]
          \<and> done_flag t')"
proof -
  have c: "crack_NDOF_STOP \<le>s ndof (u_space (cs (example_estimated 30000)))
             + ndof (v_space (cs (example_estimated 30000)))"
    by (simp add: example_defs crack_consts)
  have p: "\<not> double_less (Finite 5) part_000_ERR_STOP"
    by (simp add: part_000_consts)
  have d: "part_000_NDOF_STOP \<le>s
             ndof (u_space (snd (adapt example_library () part_000_THRESHOLD part_000_STRATEGY
                      part_000_MESH_REGULARITY (cs (example_estimated 30000)))))
             + ndof (v_space (snd (adapt example_library () part_000_THRESHOLD part_000_STRATEGY
                      part_000_MESH_REGULARITY (cs (example_estimated 30000)))))"
    by (simp add: example_defs part_000_consts)
  note t = stopping_check [of example_library "example_state 30000" "Finite 5" "()"
      "example_estimated 30000" 0 "example_state 30000" "example_estimated 30000"]
  from t c have 1: "crack_loop example_library (Suc 0) (example_state 30000)
     = Finished ((example_estimated 30000)
         \<lparr>as := as (example_estimated 30000) + 1, done_flag := True,
          trace := trace (example_estimated 30000) @ [Ev_check_stop]\<rparr>)"
    by (simp only: example_capped_estimate simp_thms if_True)
  from t p d have 2: "\<exists>t'. part_000_iteration example_library (example_state 30000) = Inr t'
          \<and> trace t' = trace (example_estimated 30000) @ [Ev_check_stop, Ev_adapt, Ev_check_ndof]
          \<and> done_flag t'"
    by (simp only: example_capped_estimate simp_thms if_False) auto
  from 1 2 show ?thesis
    by (simp only: example_capped_estimate simp_thms)
qed

section \<open>The loop body runs before the first check\<close>

lemma crack_iteration_trace:
  "crack_iteration L s = Inr s' \<Longrightarrow> \<exists>ys. trace s' = trace s @ ys"
  "crack_iteration L s = Inl (e, s') \<Longrightarrow> \<exists>ys. trace s' = trace s @ ys"
  by (auto simp: crack_iteration_def crack_solve_estimate_def crack_check_and_adapt_def
      log_event_def Let_def split: sum.splits prod.splits if_splits)

lemma crack_loop_trace:
  "\<exists>ys. trace (outcome_state (crack_loop L n s)) = trace s @ ys"
proof (induction n arbitrary: s)
  case 0
  show ?case by simp
next
  case (Suc n)
  show ?case
  proof (cases "crack_iteration L s")
    case (Inl p)
    then show ?thesis using crack_iteration_trace(2) [of L s "fst p" "snd p"]
      by (cases p) auto
  next
    case (Inr s')
    from crack_iteration_trace(1) [OF Inr] obtain ys where ys: "trace s' = trace s @ ys" ..
    from Suc.IH [of s'] obtain zs where "trace (outcome_state (crack_loop L n s')) = trace s' @ zs" ..
    with ys Inr show ?thesis by auto
  qed
qed

lemma crack_first_iteration:
  assumes "solve_linear L (build_reference (assign_dofs L) (cs s)) = Inr rs"
  shows "\<exists>s' rest. crack_iteration L s = Inr s'
           \<and> trace s' = trace s @ [Ev_build_reference, Ev_solve_linear, Ev_project_global,
                                    Ev_calc_error, Ev_check_stop] @ rest"
  using assms
  by (auto simp: crack_iteration_def crack_solve_estimate_def crack_check_and_adapt_def
      log_event_def Let_def split: sum.splits prod.splits if_splits)

lemma crack_do_while:
  assumes "solve_linear L (build_reference (assign_dofs L) (cs s)) = Inr rs"
  shows "take 5 (drop (length (trace s)) (trace (outcome_state (crack_loop L (Suc n) s))))
           = [Ev_build_reference, Ev_solve_linear, Ev_project_global, Ev_calc_error, Ev_check_stop]"
proof -
  from crack_first_iteration [OF assms] obtain s' rest where
    it: "crack_iteration L s = Inr s'" and
    tr: "trace s' = trace s @ [Ev_build_reference, Ev_solve_linear, Ev_project_global,
                                Ev_calc_error, Ev_check_stop] @ rest"
    by blast
  from crack_loop_trace [of L n s'] obtain ys where
    ys: "trace (outcome_state (crack_loop L n s')) = trace s' @ ys" ..
  have "\<exists>zs. trace (outcome_state (crack_loop L (Suc n) s)) = trace s' @ zs"
    using it ys by auto
  then obtain zs where "trace (outcome_state (crack_loop L (Suc n) s)) = trace s' @ zs" ..
  with tr show ?thesis by simp
qed

lemma part_000_iteration_trace:
  "part_000_iteration L s = Inr s' \<Longrightarrow> \<exists>ys. trace s' = trace s @ ys"
  "part_000_iteration L s = Inl (e, s') \<Longrightarrow> \<exists>ys. trace s' = trace s @ ys"
  by (auto simp: part_000_iteration_def part_000_solve_estimate_def part_000_check_and_adapt_def
      log_event_def Let_def split: sum.splits prod.splits if_splits)

lemma part_000_loop_trace:
  "\<exists>ys. trace (outcome_state (part_000_loop L n s)) = trace s @ ys"
proof (induction n arbitrary: s)
  case 0
  show ?case by simp
next
  case (Suc n)
  show ?case
  proof (cases "part_000_iteration L s")
    case (Inl p)
    then show ?thesis using part_000_iteration_trace(2) [of L s "fst p" "snd p"]
      by (cases p) auto
  next
    case (Inr s')
    from part_000_iteration_trace(1) [OF Inr] obtain ys where ys: "trace s' = trace s @ ys" ..
    from Suc.IH [of s'] obtain zs where "trace (outcome_state (part_000_loop L n s')) = trace s' @ zs" ..
    with ys Inr show ?thesis by auto
  qed
qed

lemma part_000_first_iteration:
  assumes "solve_linear L (build_reference (assign_dofs L) (cs s)) = Inr rs"
  shows "\<exists>s' rest. part_000_iteration L s = Inr s'
           \<and> trace s' = trace s @ [Ev_build_reference, Ev_solve_linear, Ev_project_global,
                                    Ev_calc_error, Ev_check_stop] @ rest"
  using assms
  by (auto simp: part_000_iteration_def part_000_solve_estimate_def part_000_check_and_adapt_def
      log_event_def Let_def split: sum.splits prod.splits if_splits)

lemma part_000_do_while:
  assumes "solve_linear L (build_reference (assign_dofs L) (cs s)) = Inr rs"
  shows "take 5 (drop (length (trace s)) (trace (outcome_state (part_000_loop L (Suc n) s))))
           = [Ev_build_reference, Ev_solve_linear, Ev_project_global, Ev_calc_error, Ev_check_stop]"
proof -
  from part_000_first_iteration [OF assms] obtain s' rest where
    it: "part_000_iteration L s = Inr s'" and
    tr: "trace s' = trace s @ [Ev_build_reference, Ev_solve_linear, Ev_project_global,
                                Ev_calc_error, Ev_check_stop] @ rest"
    by blast
  from part_000_loop_trace [of L n s'] obtain ys where
    ys: "trace (outcome_state (part_000_loop L n s')) = trace s' @ ys" ..
  have "\<exists>zs. trace (outcome_state (part_000_loop L (Suc n) s)) = trace s' @ zs"
    using it ys by auto
  then obtain zs where "trace (outcome_state (part_000_loop L (Suc n) s)) = trace s' @ zs" ..
  with tr show ?thesis by simp
qed

lemma part_001_iteration_trace:
  "part_001_iteration K t = Inr t' \<Longrightarrow>
     \<exists>ys. s_trace t' = s_trace t @ ys \<and> Ev_project_global \<notin> set ys"
  "part_001_iteration K t = Inl (e, t') \<Longrightarrow>
     \<exists>ys. s_trace t' = s_trace t @ ys \<and> Ev_project_global \<notin> set ys"
  by (auto simp: part_001_iteration_def part_001_solve_estimate_def part_001_check_and_adapt_def
      log_single_def Let_def split: sum.splits prod.splits if_splits)

lemma part_001_loop_trace:
  "\<exists>ys. s_trace (outcome_state (part_001_loop K n t)) = s_trace t @ ys
        \<and> Ev_project_global \<notin> set ys"
proof (induction n arbitrary: t)
  case 0
  show ?case by simp
next
  case (Suc n)
  show ?case
  proof (cases "part_001_iteration K t")
    case (Inl p)
    then show ?thesis using part_001_iteration_trace(2) [of K t "fst p" "snd p"]
      by (cases p) auto
  next
    case (Inr t')
    from part_001_iteration_trace(1) [OF Inr] obtain ys where
      ys: "s_trace t' = s_trace t @ ys" "Ev_project_global \<notin> set ys" by blast
    from Suc.IH [of t'] obtain zs where
      "s_trace (outcome_state (part_001_loop K n t')) = s_trace t' @ zs"
      "Ev_project_global \<notin> set zs" by blast
    with ys Inr show ?thesis by auto
  qed
qed

lemma part_001_first_iteration:
  assumes "ls_solve K (s_mesh t) (s_space t) = Inr c"
    and "rs_solve K (s_mesh t) (s_space t) = Inr f"
  shows "\<exists>t' rest. part_001_iteration K t = Inr t'
           \<and> s_trace t' = s_trace t @ [Ev_solve_coarse, Ev_exact_error, Ev_solve_fine,
                                        Ev_calc_error, Ev_check_stop] @ rest"
  using assms
  by (auto simp: part_001_iteration_def part_001_solve_estimate_def part_001_check_and_adapt_def
      log_single_def Let_def split: sum.splits prod.splits if_splits)

lemma part_001_do_while:
  assumes "ls_solve K (s_mesh t) (s_space t) = Inr c"
    and "rs_solve K (s_mesh t) (s_space t) = Inr f"
  shows "take 5 (drop (length (s_trace t)) (s_trace (outcome_state (part_001_loop K (Suc n) t))))
           = [Ev_solve_coarse, Ev_exact_error, Ev_solve_fine, Ev_calc_error, Ev_check_stop]"
proof -
  from part_001_first_iteration [OF assms] obtain t' rest where
    it: "part_001_iteration K t = Inr t'" and
    tr: "s_trace t' = s_trace t @ [Ev_solve_coarse, Ev_exact_error, Ev_solve_fine,
                                    Ev_calc_error, Ev_check_stop] @ rest"
    by blast
  from part_001_loop_trace [of K n t'] obtain ys where
    ys: "s_trace (outcome_state (part_001_loop K n t')) = s_trace t' @ ys" by blast
  have "\<exists>zs. s_trace (outcome_state (part_001_loop K (Suc n) t)) = s_trace t' @ zs"
    using it ys by auto
  then obtain zs where "s_trace (outcome_state (part_001_loop K (Suc n) t)) = s_trace t' @ zs" ..
  with tr show ?thesis by simp
qed

text \<open>
  C10, as the drivers have it: every loop is a do-while loop. In a run of the crack driver
  or of the driver of part 000 whose first reference solve succeeds, the first pass builds
  the reference problem, solves it, projects and estimates the error before the first
  stopping check, whatever the initial state is. In the driver of part 001 the first pass
  solves the coarse problem, measures the exact error, solves the fine problem and
  estimates the error before the first stopping check, when both solves succeed; that
  driver never projects.
\<close>

theorem do_while_first_pass:
  fixes L :: "('sol, 'hp) library" and K :: "('sol1, 'hp1) old_library"
  shows
  "(solve_linear L (build_reference (assign_dofs L) (cs s)) = Inr rs \<longrightarrow>
      take 5 (drop (length (trace s)) (trace (outcome_state (crack_loop L (Suc n) s))))
        = [Ev_build_reference, Ev_solve_linear, Ev_project_global, Ev_calc_error, Ev_check_stop]
      \<and> take 5 (drop (length (trace s)) (trace (outcome_state (part_000_loop L (Suc n) s))))
        = [Ev_build_reference, Ev_solve_linear, Ev_project_global, Ev_calc_error, Ev_check_stop])
   \<and> (ls_solve K (s_mesh t) (s_space t) = Inr c \<and> rs_solve K (s_mesh t) (s_space t) = Inr f \<longrightarrow>
      take 5 (drop (length (s_trace t)) (s_trace (outcome_state (part_001_loop K (Suc n) t))))
        = [Ev_solve_coarse, Ev_exact_error, Ev_solve_fine, Ev_calc_error, Ev_check_stop])
   \<and> (Ev_project_global \<notin> set (s_trace t) \<longrightarrow>
      Ev_project_global \<notin> set (s_trace (outcome_state (part_001_loop K m t))))"
proof (intro conjI impI)
  assume a: "ls_solve K (s_mesh t) (s_space t) = Inr c \<and> rs_solve K (s_mesh t) (s_space t) = Inr f"
  show "take 5 (drop (length (s_trace t)) (s_trace (outcome_state (part_001_loop K (Suc n) t))))
        = [Ev_solve_coarse, Ev_exact_error, Ev_solve_fine, Ev_calc_error, Ev_check_stop]"
    by (rule part_001_do_while [OF conjunct1 [OF a] conjunct2 [OF a]])
next
  assume "Ev_project_global \<notin> set (s_trace t)"
  then show "Ev_project_global \<notin> set (s_trace (outcome_state (part_001_loop K m t)))"
    using part_001_loop_trace [of K m t] by auto
qed (rule crack_do_while part_000_do_while, assumption)+

lemmas part_001_consts =
  part_001_THRESHOLD_def part_001_STRATEGY_def part_001_MESH_REGULARITY_def
  part_001_ERR_STOP_def part_001_NDOF_STOP_def

lemmas example_single_defs = example_old_library_def example_single_state_def example_space_def

theorem do_while_first_pass_counterexample:
  "Ev_check_stop \<in> set (s_trace (outcome_state
       (part_001_loop example_old_library (Suc 0) (example_single_state [Base 0]))))
   \<and> Ev_project_global \<notin> set (s_trace (outcome_state
       (part_001_loop example_old_library (Suc 0) (example_single_state [Base 0]))))"
  by (simp add: part_001_iteration_def part_001_solve_estimate_def part_001_check_and_adapt_def
      log_single_def example_single_defs part_001_consts Let_def refine_all_elements_def sons_def)

theorem do_while_first_pass_witness:
  "solve_linear example_library
       (build_reference (assign_dofs example_library) (cs (example_state 30000))) = Inr ((), ())
   \<and> take 5 (trace (outcome_state (crack_loop example_library (Suc 0) (example_state 30000))))
       = [Ev_build_reference, Ev_solve_linear, Ev_project_global, Ev_calc_error, Ev_check_stop]
   \<and> take 5 (trace (outcome_state (part_000_loop example_library (Suc 0) (example_state 30000))))
       = [Ev_build_reference, Ev_solve_linear, Ev_project_global, Ev_calc_error, Ev_check_stop]
   \<and> ls_solve example_old_library (s_mesh (example_single_state [Base 0, Base 1, Base 2, Base 3]))
        (s_space (example_single_state [Base 0, Base 1, Base 2, Base 3])) = Inr ()
   \<and> rs_solve example_old_library (s_mesh (example_single_state [Base 0, Base 1, Base 2, Base 3]))
        (s_space (example_single_state [Base 0, Base 1, Base 2, Base 3])) = Inr ()
   \<and> take 5 (s_trace (outcome_state (part_001_loop example_old_library (Suc 0)
                 (example_single_state [Base 0, Base 1, Base 2, Base 3]))))
       = [Ev_solve_coarse, Ev_exact_error, Ev_solve_fine, Ev_calc_error, Ev_check_stop]
   \<and> Ev_project_global \<notin> set (s_trace (outcome_state (part_001_loop example_old_library (Suc 0)
                 (example_single_state [Base 0, Base 1, Base 2, Base 3]))))"
proof -
  have a: "solve_linear example_library
       (build_reference (assign_dofs example_library) (cs (example_state 30000))) = Inr ((), ())"
    by (simp add: example_defs model_defs)
  have b: "ls_solve example_old_library (s_mesh (example_single_state [Base 0, Base 1, Base 2, Base 3]))
        (s_space (example_single_state [Base 0, Base 1, Base 2, Base 3])) = Inr ()"
    "rs_solve example_old_library (s_mesh (example_single_state [Base 0, Base 1, Base 2, Base 3]))
        (s_space (example_single_state [Base 0, Base 1, Base 2, Base 3])) = Inr ()"
    by (simp_all add: example_old_library_def)
  have c: "trace (example_state 30000) = []"
    "s_trace (example_single_state [Base 0, Base 1, Base 2, Base 3]) = []"
    by (simp_all add: example_state_def example_single_state_def)
  from do_while_first_pass [where L = example_library and s = "example_state 30000"
      and rs = "((), ())" and n = 0 and K = example_old_library
      and t = "example_single_state [Base 0, Base 1, Base 2, Base 3]" and c = "()" and f = "()"
      and m = "Suc 0"]
    a b c
  show ?thesis by simp
qed

section \<open>Solver failures\<close>

lemma crack_failed_iteration:
  assumes "solve_linear L (build_reference (assign_dofs L) (cs s)) = Inl e"
  shows "crack_iteration L s = Inl (e, s\<lparr>trace := trace s @ [Ev_build_reference, Ev_solve_linear]\<rparr>)"
  using assms by (simp add: crack_iteration_def crack_solve_estimate_def log_event_def)

lemma part_000_failed_iteration:
  assumes "solve_linear L (build_reference (assign_dofs L) (cs s)) = Inl e"
  shows "part_000_iteration L s = Inl (e, s\<lparr>trace := trace s @ [Ev_build_reference, Ev_solve_linear]\<rparr>)"
  using assms by (simp add: part_000_iteration_def part_000_solve_estimate_def log_event_def)

lemma crack_loop_after_steps:
  "crack_steps L k s0 = Some s \<Longrightarrow> crack_loop L (k + n) s0 = crack_loop L n s"
proof (induction k arbitrary: s0)
  case 0
  then show ?case by simp
next
  case (Suc k)
  then show ?case by (auto split: sum.splits if_splits)
qed

lemma part_000_loop_after_steps:
  "part_000_steps L k s0 = Some s \<Longrightarrow> part_000_loop L (k + n) s0 = part_000_loop L n s"
proof (induction k arbitrary: s0)
  case 0
  then show ?case by simp
next
  case (Suc k)
  then show ?case by (auto split: sum.splits if_splits)
qed

text \<open>
  C8: when the reference solve fails with a SolverError in the pass after \<open>k\<close> completed
  passes, the loop ends at once with that error: the state left behind is the state of the
  last completed pass, with one more reference problem built and one solve attempted, so
  no refinement step was taken and the solve was not tried again.
\<close>

theorem solver_failure_aborts:
  "(crack_steps L k s_init = Some s
      \<and> solve_linear L (build_reference (assign_dofs L) (cs s)) = Inl e \<longrightarrow>
    crack_loop L (k + Suc m) s_init
      = Aborted e (s\<lparr>trace := trace s @ [Ev_build_reference, Ev_solve_linear]\<rparr>))
   \<and> (part_000_steps L k t_init = Some t
      \<and> solve_linear L (build_reference (assign_dofs L) (cs t)) = Inl e \<longrightarrow>
    part_000_loop L (k + Suc m) t_init
      = Aborted e (t\<lparr>trace := trace t @ [Ev_build_reference, Ev_solve_linear]\<rparr>))"
proof (intro conjI impI; elim conjE)
  assume st: "crack_steps L k s_init = Some s"
    and fl: "solve_linear L (build_reference (assign_dofs L) (cs s)) = Inl e"
  have "crack_loop L (k + Suc m) s_init = crack_loop L (Suc m) s"
    by (rule crack_loop_after_steps [OF st])
  also have "\<dots> = Aborted e (s\<lparr>trace := trace s @ [Ev_build_reference, Ev_solve_linear]\<rparr>)"
    by (simp add: crack_failed_iteration [OF fl])
  finally show "crack_loop L (k + Suc m) s_init
      = Aborted e (s\<lparr>trace := trace s @ [Ev_build_reference, Ev_solve_linear]\<rparr>)" .
next
  assume st: "part_000_steps L k t_init = Some t"
    and fl: "solve_linear L (build_reference (assign_dofs L) (cs t)) = Inl e"
  have "part_000_loop L (k + Suc m) t_init = part_000_loop L (Suc m) t"
    by (rule part_000_loop_after_steps [OF st])
  also have "\<dots> = Aborted e (t\<lparr>trace := trace t @ [Ev_build_reference, Ev_solve_linear]\<rparr>)"
    by (simp add: part_000_failed_iteration [OF fl])
  finally show "part_000_loop L (k + Suc m) t_init
      = Aborted e (t\<lparr>trace := trace t @ [Ev_build_reference, Ev_solve_linear]\<rparr>)" .
qed


theorem solver_failure_aborts_witness:
  "crack_steps failing_library (Suc 0) (example_state 1) = Some example_adapted
   \<and> part_000_steps failing_library (Suc 0) (example_state 1) = Some example_adapted
   \<and> solve_linear failing_library
        (build_reference (assign_dofs failing_library) (cs example_adapted)) = Inl SolverError
   \<and> crack_loop failing_library (Suc (Suc 0)) (example_state 1)
       = Aborted SolverError
           (example_adapted\<lparr>trace := trace example_adapted @ [Ev_build_reference, Ev_solve_linear]\<rparr>)
   \<and> part_000_loop failing_library (Suc (Suc 0)) (example_state 1)
       = Aborted SolverError
           (example_adapted\<lparr>trace := trace example_adapted @ [Ev_build_reference, Ev_solve_linear]\<rparr>)"
proof -
  have a: "crack_steps failing_library (Suc 0) (example_state 1) = Some example_adapted"
    by (simp add: crack_iteration_def crack_solve_estimate_def crack_check_and_adapt_def
        failing_library_def example_adapted_def example_defs model_defs crack_consts)
  have b: "part_000_steps failing_library (Suc 0) (example_state 1) = Some example_adapted"
    by (simp add: part_000_iteration_def part_000_solve_estimate_def part_000_check_and_adapt_def
        failing_library_def example_adapted_def example_defs model_defs part_000_consts)
  have c: "solve_linear failing_library
        (build_reference (assign_dofs failing_library) (cs example_adapted)) = Inl SolverError"
    by (simp add: failing_library_def example_adapted_def example_defs model_defs)
  from solver_failure_aborts [where L = failing_library and k = "Suc 0" and s_init = "example_state 1"
      and s = example_adapted and e = SolverError and m = 0 and t_init = "example_state 1"
      and t = example_adapted] a b c
  show ?thesis by simp
qed

section \<open>The reference problem\<close>

lemma set_refine_all_elements:
  "x \<in> set (refine_all_elements m) \<longleftrightarrow> (\<exists>e i. e \<in> set m \<and> i < 4 \<and> x = Son e i)"
proof
  assume "x \<in> set (refine_all_elements m)"
  then obtain e where "e \<in> set m" "x \<in> set (sons e)"
    by (auto simp: refine_all_elements_def)
  then show "\<exists>e i. e \<in> set m \<and> i < 4 \<and> x = Son e i"
    by (auto simp: sons_def)
next
  assume "\<exists>e i. e \<in> set m \<and> i < 4 \<and> x = Son e i"
  then obtain e i where e: "e \<in> set m" and i: "i < (4::nat)" and x: "x = Son e i" by blast
  from i have "i = 0 \<or> i = 1 \<or> i = 2 \<or> i = 3" by arith
  with x have "x \<in> set (sons e)" by (auto simp: sons_def)
  with e show "x \<in> set (refine_all_elements m)"
    by (auto simp: refine_all_elements_def)
qed

lemma length_refine_all_elements:
  "length (refine_all_elements m) = 4 * length m"
  by (induction m) (simp_all add: refine_all_elements_def sons_def)

lemma copy_orders_son:
  assumes "e \<in> set m" "i < 4" "elem_order src e = Some p" "elem_order src (Son e i) = None"
  shows "elem_order (copy_orders enum sp (refine_all_elements m) src inc) (Son e i) = Some (p + inc)"
proof -
  have "Son e i \<in> set (refine_all_elements m)"
    using assms(1,2) set_refine_all_elements by blast
  moreover have "inherited_order (elem_order src) (Son e i) = Some p"
    using assms(3,4) by (cases e) simp_all
  ultimately show ?thesis by (simp add: copy_orders_def Let_def)
qed

lemma son_index: "i \<in> set [0, 1, 2, 3] \<longleftrightarrow> i < (4::nat)"
  by auto

lemma fits_order:
  assumes "space_fits_mesh sp m" "e \<in> set m" "i < 4"
  shows "\<exists>p. elem_order sp e = Some p \<and> elem_order sp (Son e i) = None"
proof -
  from assms(3) have i: "i \<in> set [0, 1, 2, 3]" by (simp only: son_index)
  from assms(1,2) have "elem_order sp e \<noteq> None"
    and "\<forall>j\<in>set [0, 1, 2, 3]. elem_order sp (Son e j) = None"
    unfolding space_fits_mesh_def by blast+
  with i show ?thesis by blast
qed

lemma fits_son_not_in_mesh:
  assumes "space_fits_mesh sp m" "e \<in> set m" "i < 4"
  shows "Son e i \<notin> set m"
proof
  assume "Son e i \<in> set m"
  with assms(1) have "elem_order sp (Son e i) \<noteq> None" by (simp add: space_fits_mesh_def)
  moreover from fits_order [OF assms] have "elem_order sp (Son e i) = None" by blast
  ultimately show False by simp
qed

lemma copy_orders_refined_son:
  assumes "space_fits_mesh src m" "e \<in> set m" "i < 4"
  shows "\<exists>p. elem_order src e = Some p
           \<and> elem_order (copy_orders enum sp (refine_all_elements m) src inc) (Son e i)
               = Some (p + inc)"
proof -
  from fits_order [OF assms] obtain p where
    p: "elem_order src e = Some p" and n: "elem_order src (Son e i) = None" by blast
  from copy_orders_son [OF assms(2,3) p n] p show ?thesis by blast
qed

lemma copy_orders_fits:
  assumes "space_fits_mesh src m"
  shows "space_fits_mesh (copy_orders enum sp (refine_all_elements m) src inc)
           (refine_all_elements m)"
  unfolding space_fits_mesh_def
proof (intro ballI conjI)
  fix x assume "x \<in> set (refine_all_elements m)"
  then obtain e i where e: "e \<in> set m" and i: "i < 4" and x: "x = Son e i"
    using set_refine_all_elements by blast
  from copy_orders_refined_son [OF assms e i, where enum = enum and sp = sp and inc = inc] x
  show "elem_order (copy_orders enum sp (refine_all_elements m) src inc) x \<noteq> None"
    by auto
  fix j :: nat assume "j \<in> set [0, 1, 2, 3]"
  have "x \<notin> set m" using fits_son_not_in_mesh [OF assms e i] x by simp
  then have "Son x j \<notin> set (refine_all_elements m)"
    by (auto simp: set_refine_all_elements)
  then show "elem_order (copy_orders enum sp (refine_all_elements m) src inc) (Son x j) = None"
    by (simp add: copy_orders_def Let_def)
qed

lemma H1Space_fits:
  assumes "no_active_sons m"
  shows "space_fits_mesh (H1Space enum mv m bc p) m"
  using assms by (auto simp: space_fits_mesh_def no_active_sons_def H1Space_def Let_def)

lemma crack_init_well_formed:
  assumes "no_active_sons loaded"
  shows "well_formed_coarse (cs (crack_init L loaded))"
  using H1Space_fits [OF assms]
  by (simp add: crack_init_def well_formed_coarse_def crack_INIT_REF_NUM_def crack_MULTI_def
      mesh_copy_def Let_def)

lemma crack_solve_estimate_coarse:
  "crack_solve_estimate L s = Inr (err_est, hp, s4) \<Longrightarrow> cs s4 = cs s"
  "crack_solve_estimate L s = Inl (e, s1) \<Longrightarrow> cs s1 = cs s"
  by (auto simp: crack_solve_estimate_def log_event_def Let_def split: sum.splits prod.splits)

lemma part_000_solve_estimate_coarse:
  "part_000_solve_estimate L s = Inr (err_est, hp, s4) \<Longrightarrow> cs s4 = cs s"
  "part_000_solve_estimate L s = Inl (e, s1) \<Longrightarrow> cs s1 = cs s"
  by (auto simp: part_000_solve_estimate_def log_event_def Let_def split: sum.splits prod.splits)

lemma crack_iteration_well_formed:
  assumes "adapt_keeps_well_formed L" "well_formed_coarse (cs s)" "crack_iteration L s = Inr s'"
  shows "well_formed_coarse (cs s')"
proof -
  from assms(3) obtain err_est hp s4 where
    se: "crack_solve_estimate L s = Inr (err_est, hp, s4)"
    and s': "s' = (crack_check_and_adapt L err_est hp s4)\<lparr>as := as (crack_check_and_adapt L err_est hp s4) + 1\<rparr>"
    by (auto simp: crack_iteration_def Let_def split: sum.splits prod.splits)
  from crack_solve_estimate_coarse(1) [OF se] assms(2) have w: "well_formed_coarse (cs s4)" by simp
  have "cs s' = cs s4 \<or> (\<exists>h t st r. cs s' = snd (adapt L h t st r (cs s4)))"
    unfolding s' crack_check_and_adapt_def log_event_def Let_def
    by (auto simp: case_prod_beta)
  with w assms(1) show ?thesis
    by (auto simp: adapt_keeps_well_formed_def)
qed

lemma part_000_iteration_well_formed:
  assumes "adapt_keeps_well_formed L" "well_formed_coarse (cs s)" "part_000_iteration L s = Inr s'"
  shows "well_formed_coarse (cs s')"
proof -
  from assms(3) obtain err_est hp s4 where
    se: "part_000_solve_estimate L s = Inr (err_est, hp, s4)"
    and s': "s' = (part_000_check_and_adapt L err_est hp s4)\<lparr>as := as (part_000_check_and_adapt L err_est hp s4) + 1\<rparr>"
    by (auto simp: part_000_iteration_def Let_def split: sum.splits prod.splits)
  from part_000_solve_estimate_coarse(1) [OF se] assms(2) have w: "well_formed_coarse (cs s4)" by simp
  have "cs s' = cs s4 \<or> (\<exists>h t st r. cs s' = snd (adapt L h t st r (cs s4)))"
    unfolding s' part_000_check_and_adapt_def log_event_def Let_def
    by (auto simp: case_prod_beta)
  with w assms(1) show ?thesis
    by (auto simp: adapt_keeps_well_formed_def)
qed

lemma crack_steps_well_formed:
  assumes "adapt_keeps_well_formed L"
  shows "well_formed_coarse (cs s_init) \<Longrightarrow> crack_steps L k s_init = Some s
           \<Longrightarrow> well_formed_coarse (cs s)"
proof (induction k arbitrary: s_init)
  case 0
  then show ?case by simp
next
  case (Suc k)
  from Suc.prems(2) obtain s' where
    it: "crack_iteration L s_init = Inr s'" and st: "crack_steps L k s' = Some s"
    by (auto split: sum.splits if_splits)
  from crack_iteration_well_formed [OF assms Suc.prems(1) it] have "well_formed_coarse (cs s')" .
  from Suc.IH [OF this st] show ?case .
qed

lemma part_000_steps_well_formed:
  assumes "adapt_keeps_well_formed L"
  shows "well_formed_coarse (cs s_init) \<Longrightarrow> part_000_steps L k s_init = Some s
           \<Longrightarrow> well_formed_coarse (cs s)"
proof (induction k arbitrary: s_init)
  case 0
  then show ?case by simp
next
  case (Suc k)
  from Suc.prems(2) obtain s' where
    it: "part_000_iteration L s_init = Inr s'" and st: "part_000_steps L k s' = Some s"
    by (auto split: sum.splits if_splits)
  from part_000_iteration_well_formed [OF assms Suc.prems(1) it] have "well_formed_coarse (cs s')" .
  from Suc.IH [OF this st] show ?case .
qed

lemma crack_iteration_solves_reference:
  "case solve_linear L (build_reference (assign_dofs L) (cs s)) of
     Inl e \<Rightarrow>
       crack_iteration L s = Inl (e, log_event Ev_solve_linear (log_event Ev_build_reference s))
   | Inr (ru, rv) \<Rightarrow>
       (\<exists>s'. crack_iteration L s = Inr s' \<and> ref_u_sln s' = Some ru \<and> ref_v_sln s' = Some rv)
       \<and> (\<exists>err_est hp s4. crack_solve_estimate L s = Inr (err_est, hp, s4) \<and> cs s4 = cs s)"
  by (auto simp: crack_iteration_def crack_solve_estimate_def crack_check_and_adapt_def
      log_event_def Let_def case_prod_beta split: sum.splits)

lemma part_000_iteration_solves_reference:
  "case solve_linear L (build_reference (assign_dofs L) (cs s)) of
     Inl e \<Rightarrow>
       part_000_iteration L s = Inl (e, log_event Ev_solve_linear (log_event Ev_build_reference s))
   | Inr (ru, rv) \<Rightarrow>
       (\<exists>s'. part_000_iteration L s = Inr s' \<and> ref_u_sln s' = Some ru \<and> ref_v_sln s' = Some rv)
       \<and> (\<exists>err_est hp s4. part_000_solve_estimate L s = Inr (err_est, hp, s4) \<and> cs s4 = cs s)"
  by (auto simp: part_000_iteration_def part_000_solve_estimate_def part_000_check_and_adapt_def
      log_event_def Let_def case_prod_beta split: sum.splits)

lemma build_reference_meshes:
  "ref_u_mesh (build_reference enum c) = refine_all_elements (u_mesh c)"
  "ref_v_mesh (build_reference enum c) = refine_all_elements (v_mesh c)"
  by (simp_all add: build_reference_def mesh_copy_def Let_def)

lemma build_reference_spaces:
  "ref_u_space (build_reference enum c)
      = copy_orders enum (space_dup enum (u_space c) Ref_u_mesh (refine_all_elements (u_mesh c)))
          (refine_all_elements (u_mesh c)) (u_space c) 1"
  "ref_v_space (build_reference enum c)
      = copy_orders enum (space_dup enum (v_space c) Ref_v_mesh (refine_all_elements (v_mesh c)))
          (refine_all_elements (v_mesh c)) (v_space c) 1"
  by (simp_all add: build_reference_def mesh_copy_def Let_def)

lemma build_reference_pointers:
  "space_mesh (ref_u_space (build_reference enum c)) = Ref_u_mesh"
  "space_mesh (ref_v_space (build_reference enum c)) = Ref_v_mesh"
  "bc_types (ref_u_space (build_reference enum c)) = bc_types (u_space c)"
  "bc_types (ref_v_space (build_reference enum c)) = bc_types (v_space c)"
  by (simp_all add: build_reference_spaces copy_orders_def space_dup_def Let_def)

lemma build_reference_orders:
  "elem_order (ref_u_space (build_reference enum c)) x
     = (if x \<in> set (ref_u_mesh (build_reference enum c))
        then map_option (\<lambda>p. p + 1) (inherited_order (elem_order (u_space c)) x) else None)"
  "elem_order (ref_v_space (build_reference enum c)) x
     = (if x \<in> set (ref_v_mesh (build_reference enum c))
        then map_option (\<lambda>p. p + 1) (inherited_order (elem_order (v_space c)) x) else None)"
  by (simp_all add: build_reference_spaces build_reference_meshes copy_orders_def Let_def)

lemma build_reference_well_formed:
  assumes "well_formed_coarse c"
  shows "\<forall>e\<in>set (u_mesh c). \<forall>i<4. \<exists>p. elem_order (u_space c) e = Some p
           \<and> elem_order (ref_u_space (build_reference enum c)) (Son e i) = Some (p + 1)"
    and "\<forall>e\<in>set (v_mesh c). \<forall>i<4. \<exists>p. elem_order (v_space c) e = Some p
           \<and> elem_order (ref_v_space (build_reference enum c)) (Son e i) = Some (p + 1)"
    and "space_fits_mesh (ref_u_space (build_reference enum c)) (ref_u_mesh (build_reference enum c))"
    and "space_fits_mesh (ref_v_space (build_reference enum c)) (ref_v_mesh (build_reference enum c))"
proof -
  from assms have u: "space_fits_mesh (u_space c) (u_mesh c)"
    and v: "space_fits_mesh (v_space c) (v_mesh c)"
    by (simp_all add: well_formed_coarse_def)
  show "\<forall>e\<in>set (u_mesh c). \<forall>i<4. \<exists>p. elem_order (u_space c) e = Some p
           \<and> elem_order (ref_u_space (build_reference enum c)) (Son e i) = Some (p + 1)"
    unfolding build_reference_spaces using copy_orders_refined_son [OF u] by blast
  show "\<forall>e\<in>set (v_mesh c). \<forall>i<4. \<exists>p. elem_order (v_space c) e = Some p
           \<and> elem_order (ref_v_space (build_reference enum c)) (Son e i) = Some (p + 1)"
    unfolding build_reference_spaces using copy_orders_refined_son [OF v] by blast
  show "space_fits_mesh (ref_u_space (build_reference enum c)) (ref_u_mesh (build_reference enum c))"
    unfolding build_reference_spaces build_reference_meshes by (rule copy_orders_fits [OF u])
  show "space_fits_mesh (ref_v_space (build_reference enum c)) (ref_v_mesh (build_reference enum c))"
    unfolding build_reference_spaces build_reference_meshes by (rule copy_orders_fits [OF v])
qed

text \<open>
  C4: in every pass through the loop body of the crack driver and of the driver of part
  000, from the state \<open>s\<close> the pass starts in, the problem handed to \<open>solve_linear\<close> is the
  reference problem built from the current coarse problem \<open>cs s\<close>, which the construction
  and the solve leave as it is. Each reference mesh is the copy of the coarse mesh after
  one pass of uniform refinement: its elements are exactly the sons of the coarse elements.
  Each reference space is the duplicate of the coarse space on that mesh, with the same
  boundary classification, and gives every element of the reference mesh the order the
  coarse space has there, increased by 1, the value of \<open>order_increase\<close>. When the coarse
  problem is well formed, that is the order of the coarse element plus 1 for each of its
  four sons, and the reference problem is well formed too. The coarse problem is well
  formed at the start of the crack driver, when the loaded mesh has no active sons, and
  stays so in every pass when the refinement step keeps it so. After \<open>k\<close> completed passes
  that end in \<open>s\<close>, the next pass of the loop is the loop body run from \<open>s\<close>.
\<close>

theorem reference_problem:
  fixes L :: "('sol, 'hp) library"
  shows
  "(let R = build_reference (assign_dofs L) (cs s) in
      (case solve_linear L R of
         Inl e \<Rightarrow>
           crack_iteration L s
             = Inl (e, log_event Ev_solve_linear (log_event Ev_build_reference s))
           \<and> part_000_iteration L s
             = Inl (e, log_event Ev_solve_linear (log_event Ev_build_reference s))
       | Inr (ru, rv) \<Rightarrow>
           (\<exists>s'. crack_iteration L s = Inr s' \<and> ref_u_sln s' = Some ru \<and> ref_v_sln s' = Some rv)
           \<and> (\<exists>err_est hp s4. crack_solve_estimate L s = Inr (err_est, hp, s4) \<and> cs s4 = cs s)
           \<and> (\<exists>s'. part_000_iteration L s = Inr s' \<and> ref_u_sln s' = Some ru \<and> ref_v_sln s' = Some rv)
           \<and> (\<exists>err_est hp s4. part_000_solve_estimate L s = Inr (err_est, hp, s4) \<and> cs s4 = cs s))
      \<and> ref_u_mesh R = refine_all_elements (u_mesh (cs s))
      \<and> ref_v_mesh R = refine_all_elements (v_mesh (cs s))
      \<and> (\<forall>x. x \<in> set (ref_u_mesh R)
              \<longleftrightarrow> (\<exists>e i. e \<in> set (u_mesh (cs s)) \<and> i < 4 \<and> x = Son e i))
      \<and> (\<forall>x. x \<in> set (ref_v_mesh R)
              \<longleftrightarrow> (\<exists>e i. e \<in> set (v_mesh (cs s)) \<and> i < 4 \<and> x = Son e i))
      \<and> space_mesh (ref_u_space R) = Ref_u_mesh
      \<and> space_mesh (ref_v_space R) = Ref_v_mesh
      \<and> bc_types (ref_u_space R) = bc_types (u_space (cs s))
      \<and> bc_types (ref_v_space R) = bc_types (v_space (cs s))
      \<and> (\<forall>x. elem_order (ref_u_space R) x
              = (if x \<in> set (ref_u_mesh R)
                 then map_option (\<lambda>p. p + 1) (inherited_order (elem_order (u_space (cs s))) x)
                 else None))
      \<and> (\<forall>x. elem_order (ref_v_space R) x
              = (if x \<in> set (ref_v_mesh R)
                 then map_option (\<lambda>p. p + 1) (inherited_order (elem_order (v_space (cs s))) x)
                 else None))
      \<and> (well_formed_coarse (cs s) \<longrightarrow>
            (\<forall>e\<in>set (u_mesh (cs s)). \<forall>i<4. \<exists>p. elem_order (u_space (cs s)) e = Some p
                \<and> elem_order (ref_u_space R) (Son e i) = Some (p + 1))
            \<and> (\<forall>e\<in>set (v_mesh (cs s)). \<forall>i<4. \<exists>p. elem_order (v_space (cs s)) e = Some p
                \<and> elem_order (ref_v_space R) (Son e i) = Some (p + 1))
            \<and> space_fits_mesh (ref_u_space R) (ref_u_mesh R)
            \<and> space_fits_mesh (ref_v_space R) (ref_v_mesh R)))
   \<and> (no_active_sons loaded \<longrightarrow> well_formed_coarse (cs (crack_init L loaded)))
   \<and> (adapt_keeps_well_formed L \<and> well_formed_coarse (cs s_init)
        \<and> (crack_steps L k s_init = Some s \<or> part_000_steps L k s_init = Some s)
      \<longrightarrow> well_formed_coarse (cs s))
   \<and> (crack_steps L k s_init = Some s \<longrightarrow>
        crack_loop L (k + Suc n) s_init
          = (case crack_iteration L s of
               Inl (e, s') \<Rightarrow> Aborted e s'
             | Inr s' \<Rightarrow> if done_flag s' then Finished s' else crack_loop L n s'))
   \<and> (part_000_steps L k s_init = Some s \<longrightarrow>
        part_000_loop L (k + Suc n) s_init
          = (case part_000_iteration L s of
               Inl (e, s') \<Rightarrow> Aborted e s'
             | Inr s' \<Rightarrow> if done_flag s' then Finished s' else part_000_loop L n s'))"
proof -
  let ?R = "build_reference (assign_dofs L) (cs s)"
  have loop: "crack_steps L k s_init = Some s \<longrightarrow>
        crack_loop L (k + Suc n) s_init
          = (case crack_iteration L s of
               Inl (e, s') \<Rightarrow> Aborted e s'
             | Inr s' \<Rightarrow> if done_flag s' then Finished s' else crack_loop L n s')"
    "part_000_steps L k s_init = Some s \<longrightarrow>
        part_000_loop L (k + Suc n) s_init
          = (case part_000_iteration L s of
               Inl (e, s') \<Rightarrow> Aborted e s'
             | Inr s' \<Rightarrow> if done_flag s' then Finished s' else part_000_loop L n s')"
    using crack_loop_after_steps [of L k s_init s "Suc n"]
      part_000_loop_after_steps [of L k s_init s "Suc n"]
    by simp_all
  have solve: "case solve_linear L ?R of
         Inl e \<Rightarrow>
           crack_iteration L s
             = Inl (e, log_event Ev_solve_linear (log_event Ev_build_reference s))
           \<and> part_000_iteration L s
             = Inl (e, log_event Ev_solve_linear (log_event Ev_build_reference s))
       | Inr (ru, rv) \<Rightarrow>
           (\<exists>s'. crack_iteration L s = Inr s' \<and> ref_u_sln s' = Some ru \<and> ref_v_sln s' = Some rv)
           \<and> (\<exists>err_est hp s4. crack_solve_estimate L s = Inr (err_est, hp, s4) \<and> cs s4 = cs s)
           \<and> (\<exists>s'. part_000_iteration L s = Inr s' \<and> ref_u_sln s' = Some ru \<and> ref_v_sln s' = Some rv)
           \<and> (\<exists>err_est hp s4. part_000_solve_estimate L s = Inr (err_est, hp, s4) \<and> cs s4 = cs s)"
    using crack_iteration_solves_reference [of L s] part_000_iteration_solves_reference [of L s]
    by (auto split: sum.splits)
  have sets: "\<forall>x. x \<in> set (ref_u_mesh ?R)
              \<longleftrightarrow> (\<exists>e i. e \<in> set (u_mesh (cs s)) \<and> i < 4 \<and> x = Son e i)"
    "\<forall>x. x \<in> set (ref_v_mesh ?R)
              \<longleftrightarrow> (\<exists>e i. e \<in> set (v_mesh (cs s)) \<and> i < 4 \<and> x = Son e i)"
    by (simp_all add: build_reference_meshes set_refine_all_elements)
  have wf: "well_formed_coarse (cs s) \<longrightarrow>
            (\<forall>e\<in>set (u_mesh (cs s)). \<forall>i<4. \<exists>p. elem_order (u_space (cs s)) e = Some p
                \<and> elem_order (ref_u_space ?R) (Son e i) = Some (p + 1))
            \<and> (\<forall>e\<in>set (v_mesh (cs s)). \<forall>i<4. \<exists>p. elem_order (v_space (cs s)) e = Some p
                \<and> elem_order (ref_v_space ?R) (Son e i) = Some (p + 1))
            \<and> space_fits_mesh (ref_u_space ?R) (ref_u_mesh ?R)
            \<and> space_fits_mesh (ref_v_space ?R) (ref_v_mesh ?R)"
    using build_reference_well_formed [of "cs s" "assign_dofs L"] by blast
  have init: "no_active_sons loaded \<longrightarrow> well_formed_coarse (cs (crack_init L loaded))"
    using crack_init_well_formed by blast
  have inv: "adapt_keeps_well_formed L \<and> well_formed_coarse (cs s_init)
        \<and> (crack_steps L k s_init = Some s \<or> part_000_steps L k s_init = Some s)
      \<longrightarrow> well_formed_coarse (cs s)"
    using crack_steps_well_formed part_000_steps_well_formed by blast
  show ?thesis
    unfolding Let_def
    using solve sets wf init inv loop build_reference_meshes [of "assign_dofs L" "cs s"]
      build_reference_pointers [of "assign_dofs L" "cs s"]
      build_reference_orders [of "assign_dofs L" "cs s"]
    by (intro conjI allI) (assumption | blast)+
qed

lemma tidy_library_keeps_well_formed: "adapt_keeps_well_formed tidy_library"
  unfolding adapt_keeps_well_formed_def
proof (intro allI impI)
  fix hp :: unit and thr strat reg and c :: coarse
  assume "well_formed_coarse c"
  then have u: "space_fits_mesh (u_space c) (u_mesh c)"
    and v: "space_fits_mesh (v_space c) (v_mesh c)"
    by (simp_all add: well_formed_coarse_def)
  show "well_formed_coarse (snd (adapt tidy_library hp thr strat reg c))"
    using copy_orders_fits [OF u] copy_orders_fits [OF v]
    by (simp add: tidy_library_def well_formed_coarse_def)
qed

lemma tidy_adapted_steps:
  "crack_steps tidy_library (Suc 0) (example_state 1) = Some tidy_adapted"
  by (simp add: tidy_adapted_def crack_iteration_def crack_solve_estimate_def
      crack_check_and_adapt_def tidy_library_def example_defs model_defs crack_consts)

lemma tidy_adapted_coarse:
  "u_mesh (cs tidy_adapted) = [Son (Base 0) 0, Son (Base 0) 1, Son (Base 0) 2, Son (Base 0) 3]"
  "elem_order (u_space (cs tidy_adapted)) (Son (Base 0) 0) = Some 2"
  by (simp_all add: tidy_adapted_def crack_iteration_def crack_solve_estimate_def
      crack_check_and_adapt_def tidy_library_def example_defs model_defs crack_consts)

lemma tidy_adapted_solve:
  "solve_linear tidy_library (build_reference (assign_dofs tidy_library) (cs tidy_adapted))
     = Inr ((), ())"
  by (simp add: build_reference_meshes tidy_adapted_coarse tidy_library_def example_library_def
      refine_all_elements_def sons_def)

theorem reference_problem_witness:
  "crack_steps tidy_library (Suc 0) (example_state 1) = Some tidy_adapted
   \<and> Son (Base 0) 0 \<in> set (u_mesh (cs tidy_adapted))
   \<and> elem_order (u_space (cs tidy_adapted)) (Son (Base 0) 0) = Some 2
   \<and> elem_order (ref_u_space (build_reference (assign_dofs tidy_library) (cs tidy_adapted)))
        (Son (Son (Base 0) 0) 3) = Some 3
   \<and> solve_linear tidy_library (build_reference (assign_dofs tidy_library) (cs tidy_adapted))
        = Inr ((), ())
   \<and> (\<exists>s'. crack_iteration tidy_library tidy_adapted = Inr s' \<and> ref_u_sln s' = Some ())
   \<and> (\<exists>err_est hp s4. crack_solve_estimate tidy_library tidy_adapted = Inr (err_est, hp, s4)
         \<and> cs s4 = cs tidy_adapted)"
proof -
  note t = reference_problem [where L = tidy_library and s = tidy_adapted
      and s_init = "example_state 1" and k = "Suc 0" and loaded = "[Base 0]" and n = 0,
      unfolded Let_def]
  have a: "no_active_sons [Base 0]" by (simp add: no_active_sons_def)
  have b: "well_formed_coarse (cs (example_state 1))"
    by (simp add: well_formed_coarse_def space_fits_mesh_def example_defs)
  from t a have c: "well_formed_coarse (cs (crack_init tidy_library [Base 0]))" by blast
  from t tidy_library_keeps_well_formed b tidy_adapted_steps
  have d: "well_formed_coarse (cs tidy_adapted)" by blast
  have e: "Son (Base 0) 0 \<in> set (u_mesh (cs tidy_adapted))" "(3::nat) < 4"
    by (simp_all add: tidy_adapted_coarse)
  from t d have "\<forall>e\<in>set (u_mesh (cs tidy_adapted)). \<forall>i<4.
      \<exists>p. elem_order (u_space (cs tidy_adapted)) e = Some p
        \<and> elem_order (ref_u_space (build_reference (assign_dofs tidy_library) (cs tidy_adapted)))
             (Son e i) = Some (p + 1)" by blast
  with e obtain p where "elem_order (u_space (cs tidy_adapted)) (Son (Base 0) 0) = Some p"
    and "elem_order (ref_u_space (build_reference (assign_dofs tidy_library) (cs tidy_adapted)))
             (Son (Son (Base 0) 0) 3) = Some (p + 1)" by blast
  then have f: "elem_order (ref_u_space (build_reference (assign_dofs tidy_library) (cs tidy_adapted)))
             (Son (Son (Base 0) 0) 3) = Some 3"
    by (simp add: tidy_adapted_coarse)
  from t have "case solve_linear tidy_library
        (build_reference (assign_dofs tidy_library) (cs tidy_adapted)) of
      Inl e \<Rightarrow> True
    | Inr (ru, rv) \<Rightarrow>
        (\<exists>s'. crack_iteration tidy_library tidy_adapted = Inr s' \<and> ref_u_sln s' = Some ru)
        \<and> (\<exists>err_est hp s4. crack_solve_estimate tidy_library tidy_adapted = Inr (err_est, hp, s4)
              \<and> cs s4 = cs tidy_adapted)"
    by (auto split: sum.splits)
  then have g: "(\<exists>s'. crack_iteration tidy_library tidy_adapted = Inr s' \<and> ref_u_sln s' = Some ())
        \<and> (\<exists>err_est hp s4. crack_solve_estimate tidy_library tidy_adapted = Inr (err_est, hp, s4)
              \<and> cs s4 = cs tidy_adapted)"
    by (simp add: tidy_adapted_solve)
  from e(1) f g tidy_adapted_steps tidy_adapted_coarse(2) tidy_adapted_solve
  show ?thesis by blast
qed

section \<open>The strategy relative to the maximum error\<close>













section \<open>The cumulative strategy\<close>

lemma sorted_sort_by_error_desc:
  "sorted_wrt (\<lambda>a b. snd b \<le> snd a) (sort_by_error_desc errs)"
proof -
  have "sorted (map snd (sort_key snd errs))" by (rule sorted_sort_key)
  then have "sorted_wrt (\<lambda>a b. snd a \<le> snd b) (sort_key snd errs)"
    by (simp add: sorted_map)
  then show ?thesis
    by (simp add: sort_by_error_desc_def sorted_wrt_rev)
qed

lemma mset_sort_by_error_desc: "mset (sort_by_error_desc errs) = mset errs"
  by (simp add: sort_by_error_desc_def)

lemma set_sort_by_error_desc: "set (sort_by_error_desc errs) = set errs"
  by (simp add: sort_by_error_desc_def)

lemma take_cumulative_prefix:
  "\<exists>k. take_cumulative l p prev xs = take k xs"
proof (induction xs arbitrary: p prev)
  case Nil
  show ?case by simp
next
  case (Cons x xs)
  obtain e err where x: "x = (e, err)" by (cases x)
  show ?case
  proof (cases "l \<le> p \<and> prev \<noteq> Some err")
    case True
    then have "take_cumulative l p prev (x # xs) = take 0 (x # xs)" by (simp add: x)
    then show ?thesis ..
  next
    case False
    from Cons.IH [of "p + err" "Some err"] obtain k where
      "take_cumulative l (p + err) (Some err) xs = take k xs" ..
    with False have "take_cumulative l p prev (x # xs) = take (Suc k) (x # xs)"
      by (simp add: x)
    then show ?thesis ..
  qed
qed

lemma take_cumulative_tie_run:
  assumes "sorted_wrt (\<lambda>a b. snd b \<le> snd a) xs"
    and "\<forall>y\<in>set xs. snd y \<le> x"
    and "(b, x) \<in> set xs"
  shows "(b, x) \<in> set (take_cumulative l p (Some x) xs)"
  using assms
proof (induction xs arbitrary: p)
  case Nil
  then show ?case by simp
next
  case (Cons y ys)
  obtain e err where y: "y = (e, err)" by (cases y)
  have le: "err \<le> x" using Cons.prems(2) y by simp
  have ge: "x \<le> err"
  proof (cases "(b, x) = y")
    case True
    then show ?thesis using y by simp
  next
    case False
    with Cons.prems(3) have "(b, x) \<in> set ys" by simp
    with Cons.prems(1) have "snd (b, x) \<le> snd y" by auto
    then show ?thesis using y by simp
  qed
  from le ge have eq: "err = x" by simp
  show ?case
  proof (cases "(b, x) = y")
    case True
    then show ?thesis using y eq by simp
  next
    case False
    with Cons.prems(3) have m: "(b, x) \<in> set ys" by simp
    have s: "sorted_wrt (\<lambda>a b. snd b \<le> snd a) ys" using Cons.prems(1) by simp
    have b: "\<forall>z\<in>set ys. snd z \<le> x" using Cons.prems(2) by simp
    from Cons.IH [OF s b m] show ?thesis using y eq by simp
  qed
qed

lemma take_cumulative_ties:
  assumes "sorted_wrt (\<lambda>a b. snd b \<le> snd a) xs"
    and "(a, x) \<in> set (take_cumulative l p prev xs)"
    and "(b, x) \<in> set xs"
  shows "(b, x) \<in> set (take_cumulative l p prev xs)"
  using assms
proof (induction xs arbitrary: p prev)
  case Nil
  then show ?case by simp
next
  case (Cons y ys)
  obtain e err where y: "y = (e, err)" by (cases y)
  have go: "\<not> (l \<le> p \<and> prev \<noteq> Some err)"
    using Cons.prems(2) y by (auto split: if_splits)
  then have unf: "take_cumulative l p prev (y # ys)
      = y # take_cumulative l (p + err) (Some err) ys"
    using y by simp
  have s: "sorted_wrt (\<lambda>a b. snd b \<le> snd a) ys" using Cons.prems(1) by simp
  show ?case
  proof (cases "(b, x) = y")
    case True
    then show ?thesis using unf by simp
  next
    case False
    with Cons.prems(3) have m: "(b, x) \<in> set ys" by simp
    show ?thesis
    proof (cases "(a, x) \<in> set (take_cumulative l (p + err) (Some err) ys)")
      case True
      from Cons.IH [OF s True m] show ?thesis using unf by simp
    next
      case False
      with Cons.prems(2) unf have "(a, x) = y" by simp
      then have eq: "err = x" using y by simp
      have b: "\<forall>z\<in>set ys. snd z \<le> x" using Cons.prems(1) y eq by auto
      from take_cumulative_tie_run [OF s b m] show ?thesis using unf eq by simp
    qed
  qed
qed

lemma take_cumulative_reaches:
  "take_cumulative l p prev xs \<noteq> xs
     \<Longrightarrow> l \<le> p + sum_list (map snd (take_cumulative l p prev xs))"
proof (induction xs arbitrary: p prev)
  case Nil
  then show ?case by simp
next
  case (Cons y ys)
  obtain e err where y: "y = (e, err)" by (cases y)
  show ?case
  proof (cases "l \<le> p \<and> prev \<noteq> Some err")
    case True
    then show ?thesis using y by simp
  next
    case False
    with Cons.prems y have "take_cumulative l (p + err) (Some err) ys \<noteq> ys" by simp
    from Cons.IH [OF this] show ?thesis using False y by (simp add: add.assoc)
  qed
qed

lemma take_cumulative_needed:
  "k < length (take_cumulative l p prev xs)
     \<Longrightarrow> p + sum_list (map snd (take k (take_cumulative l p prev xs))) < l
         \<or> (case k of
               0 \<Rightarrow> prev = Some (snd (take_cumulative l p prev xs ! 0))
             | Suc j \<Rightarrow> snd (take_cumulative l p prev xs ! k) = snd (take_cumulative l p prev xs ! j))"
proof (induction xs arbitrary: p prev k)
  case Nil
  then show ?case by simp
next
  case (Cons y ys)
  obtain e err where y: "y = (e, err)" by (cases y)
  have go: "\<not> (l \<le> p \<and> prev \<noteq> Some err)"
    using Cons.prems y by (auto split: if_splits)
  then have unf: "take_cumulative l p prev (y # ys)
      = y # take_cumulative l (p + err) (Some err) ys"
    using y by simp
  show ?case
  proof (cases k)
    case 0
    then show ?thesis using go unf y by auto
  next
    case (Suc j)
    with Cons.prems unf have "j < length (take_cumulative l (p + err) (Some err) ys)" by simp
    from Cons.IH [OF this] show ?thesis
      using Suc unf y by (cases j) (auto simp: add.assoc)
  qed
qed

text \<open>
  C6: with \<open>STRATEGY = 0\<close> (the crack driver and the driver of part 001) the refinement
  step takes a prefix of the elements sorted by descending error. If it does not take all
  elements, the error of the elements taken has reached the square root of the threshold
  times the total error; every element taken is taken because the error accumulated
  before it is still below that limit, or because its error equals that of the element
  taken before it; and whenever an element is taken, every element of equal error is
  taken too.
\<close>

theorem cumulative_strategy:
  "select_elements crack_STRATEGY crack_THRESHOLD_MULTI errs = Some (refine_cumulative 0.35 errs)
   \<and> select_elements part_001_STRATEGY part_001_THRESHOLD errs = Some (refine_cumulative 0.3 errs)
   \<and> refine_cumulative thr errs = map fst (cumulative_selection thr errs)
   \<and> mset (sort_by_error_desc errs) = mset errs
   \<and> sorted_wrt (\<lambda>a b. snd b \<le> snd a) (sort_by_error_desc errs)
   \<and> (\<exists>n. cumulative_selection thr errs = take n (sort_by_error_desc errs))
   \<and> (cumulative_selection thr errs \<noteq> sort_by_error_desc errs
        \<longrightarrow> sqrt thr * total_error errs \<le> total_error (cumulative_selection thr errs))
   \<and> (k < length (cumulative_selection thr errs)
        \<longrightarrow> total_error (take k (cumulative_selection thr errs)) < sqrt thr * total_error errs
            \<or> (0 < k \<and> snd (cumulative_selection thr errs ! k)
                          = snd (cumulative_selection thr errs ! (k - 1))))
   \<and> ((a, x) \<in> set (cumulative_selection thr errs) \<and> (b, x) \<in> set errs
        \<longrightarrow> (b, x) \<in> set (cumulative_selection thr errs))"
proof (intro conjI impI)
  show "select_elements crack_STRATEGY crack_THRESHOLD_MULTI errs = Some (refine_cumulative 0.35 errs)"
    by (simp add: select_elements_def crack_STRATEGY_def crack_THRESHOLD_MULTI_def)
  show "select_elements part_001_STRATEGY part_001_THRESHOLD errs = Some (refine_cumulative 0.3 errs)"
    by (simp add: select_elements_def part_001_STRATEGY_def part_001_THRESHOLD_def)
  show "refine_cumulative thr errs = map fst (cumulative_selection thr errs)"
    by (simp add: refine_cumulative_def)
  show "mset (sort_by_error_desc errs) = mset errs"
    by (rule mset_sort_by_error_desc)
  show "sorted_wrt (\<lambda>a b. snd b \<le> snd a) (sort_by_error_desc errs)"
    by (rule sorted_sort_by_error_desc)
  show "\<exists>n. cumulative_selection thr errs = take n (sort_by_error_desc errs)"
    unfolding cumulative_selection_def by (rule take_cumulative_prefix)
next
  assume "cumulative_selection thr errs \<noteq> sort_by_error_desc errs"
  then have "sqrt thr * total_error errs
      \<le> 0 + sum_list (map snd (cumulative_selection thr errs))"
    unfolding cumulative_selection_def by (rule take_cumulative_reaches)
  then show "sqrt thr * total_error errs \<le> total_error (cumulative_selection thr errs)"
    by (simp add: total_error_def)
next
  assume "k < length (cumulative_selection thr errs)"
  then have "0 + sum_list (map snd (take k (cumulative_selection thr errs)))
        < sqrt thr * total_error errs
      \<or> (case k of
            0 \<Rightarrow> None = Some (snd (cumulative_selection thr errs ! 0))
          | Suc j \<Rightarrow> snd (cumulative_selection thr errs ! k) = snd (cumulative_selection thr errs ! j))"
    unfolding cumulative_selection_def by (rule take_cumulative_needed)
  then show "total_error (take k (cumulative_selection thr errs)) < sqrt thr * total_error errs
            \<or> (0 < k \<and> snd (cumulative_selection thr errs ! k)
                          = snd (cumulative_selection thr errs ! (k - 1)))"
    by (cases k) (auto simp: total_error_def)
next
  assume h: "(a, x) \<in> set (cumulative_selection thr errs) \<and> (b, x) \<in> set errs"
  then have 1: "(a, x) \<in> set (take_cumulative (sqrt thr * total_error errs) 0 None
                                (sort_by_error_desc errs))"
    and 2: "(b, x) \<in> set (sort_by_error_desc errs)"
    by (simp_all add: cumulative_selection_def set_sort_by_error_desc)
  from take_cumulative_ties [OF sorted_sort_by_error_desc 1 2]
  show "(b, x) \<in> set (cumulative_selection thr errs)"
    by (simp add: cumulative_selection_def)
qed

lemma sqrt_quarter: "sqrt (1 / 4 :: real) = 1 / 2"
  by (rule real_sqrt_unique) (simp_all add: power2_eq_square)

lemma example_cumulative_selection:
  "cumulative_selection 0.25 [(Base 0, 5), (Base 1, 6), (Base 2, 5), (Base 3, 4)]
     = [(Base 1, 6), (Base 2, 5), (Base 0, 5)]"
  "sort_by_error_desc [(Base 0, 5), (Base 1, 6), (Base 2, 5), (Base 3, 4)]
     = [(Base 1, 6), (Base 2, 5), (Base 0, 5), (Base 3, 4)]"
  by (simp_all add: cumulative_selection_def sort_by_error_desc_def total_error_def sqrt_quarter)

theorem cumulative_strategy_witness:
  "cumulative_selection 0.25 [(Base 0, 5), (Base 1, 6), (Base 2, 5), (Base 3, 4)]
     = [(Base 1, 6), (Base 2, 5), (Base 0, 5)]
   \<and> cumulative_selection 0.25 [(Base 0, 5), (Base 1, 6), (Base 2, 5), (Base 3, 4)]
       \<noteq> sort_by_error_desc [(Base 0, 5), (Base 1, 6), (Base 2, 5), (Base 3, 4)]
   \<and> sqrt 0.25 * total_error [(Base 0, 5), (Base 1, 6), (Base 2, 5), (Base 3, 4)]
       \<le> total_error (cumulative_selection 0.25 [(Base 0, 5), (Base 1, 6), (Base 2, 5), (Base 3, 4)])
   \<and> 2 < length (cumulative_selection 0.25 [(Base 0, 5), (Base 1, 6), (Base 2, 5), (Base 3, 4)])
   \<and> snd (cumulative_selection 0.25 [(Base 0, 5), (Base 1, 6), (Base 2, 5), (Base 3, 4)] ! 2)
       = snd (cumulative_selection 0.25 [(Base 0, 5), (Base 1, 6), (Base 2, 5), (Base 3, 4)] ! 1)
   \<and> (Base 2, 5) \<in> set (cumulative_selection 0.25 [(Base 0, 5), (Base 1, 6), (Base 2, 5), (Base 3, 4)])
   \<and> (Base 0, 5) \<in> set ([(Base 0, 5), (Base 1, 6), (Base 2, 5), (Base 3, 4)] :: element_errors)
   \<and> (Base 0, 5) \<in> set (cumulative_selection 0.25 [(Base 0, 5), (Base 1, 6), (Base 2, 5), (Base 3, 4)])"
proof -
  let ?errs = "[(Base 0, 5), (Base 1, 6), (Base 2, 5), (Base 3, 4)] :: element_errors"
  have h: "cumulative_selection 0.25 ?errs \<noteq> sort_by_error_desc ?errs"
    "2 < length (cumulative_selection 0.25 ?errs)"
    "(Base 2, 5) \<in> set (cumulative_selection 0.25 ?errs)"
    "(Base 0, 5) \<in> set ?errs"
    "\<not> total_error (take 2 (cumulative_selection 0.25 ?errs)) < sqrt 0.25 * total_error ?errs"
    by (simp_all only: example_cumulative_selection) (simp_all add: total_error_def sqrt_quarter)
  note t = cumulative_strategy [where thr = "0.25" and errs = ?errs and k = 2 and a = "Base 2"
      and x = 5 and b = "Base 0"]
  from t h(1) have 1: "sqrt 0.25 * total_error ?errs
      \<le> total_error (cumulative_selection 0.25 ?errs)" by blast
  from t h(2,5) have 2: "snd (cumulative_selection 0.25 ?errs ! 2)
      = snd (cumulative_selection 0.25 ?errs ! (2 - 1))" by blast
  from t h(3,4) have 3: "(Base 0, 5) \<in> set (cumulative_selection 0.25 ?errs)" by blast
  from 2 have tie: "snd (cumulative_selection 0.25 ?errs ! 2)
      = snd (cumulative_selection 0.25 ?errs ! 1)" by simp
  from example_cumulative_selection(1) h 1 tie 3 show ?thesis by blast
qed

section \<open>The reported total error\<close>

lemma fold_squares:
  "fold (\<lambda>(e, x) acc. acc + x\<^sup>2) errs a = a + (\<Sum>p\<leftarrow>errs. (snd p)\<^sup>2)"
  by (induction errs arbitrary: a) (auto simp: case_prod_beta add.assoc)

lemma squared_error_sum_eq: "squared_error_sum errs = (\<Sum>p\<leftarrow>errs. (snd p)\<^sup>2)"
  by (simp add: squared_error_sum_def fold_squares)

lemma squared_error_sum_nonneg: "0 \<le> squared_error_sum errs"
  unfolding squared_error_sum_eq by (rule sum_list_nonneg) auto

lemma squared_error_sum_zero:
  "squared_error_sum errs = 0 \<longleftrightarrow> (\<forall>p\<in>set errs. snd p = 0)"
proof -
  have "(\<Sum>p\<leftarrow>errs. (snd p)\<^sup>2) = 0 \<longleftrightarrow> (\<forall>x\<in>set (map (\<lambda>p. (snd p)\<^sup>2) errs). x = 0)"
    by (rule sum_list_nonneg_eq_0_iff) auto
  then show ?thesis by (auto simp: squared_error_sum_eq)
qed

lemma fold_reference_norm_nonneg:
  "0 \<le> a \<Longrightarrow> 0 \<le> fold (\<lambda>e acc. acc + (norm (f e))\<^sup>2) m (a::real)"
  by (induction m arbitrary: a) auto

lemma reference_norm_nonneg: "0 \<le> reference_norm m ref_sln"
  by (simp add: reference_norm_def fold_reference_norm_nonneg)

lemma err_est_percent_nonneg: "0 \<le> nrm \<Longrightarrow> 0 \<le> err_est_percent errs nrm"
  by (simp add: err_est_percent_def calc_elem_errors_def squared_error_sum_nonneg)

lemma err_est_percent_zero: "\<forall>p\<in>set errs. snd p = 0 \<Longrightarrow> err_est_percent errs nrm = 0"
  using squared_error_sum_zero [of errs]
  by (simp add: err_est_percent_def calc_elem_errors_def)

lemma solution_errors_equal:
  "\<forall>e\<in>set m. coarse_sln e = ref_sln e \<Longrightarrow> \<forall>p\<in>set (solution_errors m coarse_sln ref_sln). snd p = 0"
  by (auto simp: solution_errors_def)

text \<open>
  C3: the total error the drivers report, \<open>calc_elem_errors(...) * 100\<close>, equals 100 times
  the square root of the sum of the squared element errors, divided by the normalization.
  It is not negative when the normalization is not negative, as the norm of the reference
  solution is, and it is zero when all element errors are zero, as they are when the
  coarse solution equals the reference solution on every element. The formula is taken
  over the real numbers, where a quotient by a vanishing normalization is 0.
\<close>

theorem reported_total_error:
  "err_est_percent errs nrm = 100 * sqrt (\<Sum>p\<leftarrow>errs. (snd p)\<^sup>2) / nrm
   \<and> (0 \<le> nrm \<longrightarrow> 0 \<le> err_est_percent errs nrm)
   \<and> ((\<forall>p\<in>set errs. snd p = 0) \<longrightarrow> err_est_percent errs nrm = 0)
   \<and> 0 \<le> err_est_percent (solution_errors m coarse_sln ref_sln) (reference_norm m ref_sln)
   \<and> ((\<forall>e\<in>set m. coarse_sln e = ref_sln e)
        \<longrightarrow> err_est_percent (solution_errors m coarse_sln ref_sln) nrm = 0)"
proof (intro conjI impI)
  show "err_est_percent errs nrm = 100 * sqrt (\<Sum>p\<leftarrow>errs. (snd p)\<^sup>2) / nrm"
    by (simp add: err_est_percent_def calc_elem_errors_def squared_error_sum_eq)
  show "0 \<le> err_est_percent (solution_errors m coarse_sln ref_sln) (reference_norm m ref_sln)"
    by (rule err_est_percent_nonneg [OF reference_norm_nonneg])
next
  assume "0 \<le> nrm"
  then show "0 \<le> err_est_percent errs nrm" by (rule err_est_percent_nonneg)
next
  assume "\<forall>p\<in>set errs. snd p = 0"
  then show "err_est_percent errs nrm = 0" by (rule err_est_percent_zero)
next
  assume "\<forall>e\<in>set m. coarse_sln e = ref_sln e"
  then show "err_est_percent (solution_errors m coarse_sln ref_sln) nrm = 0"
    by (intro err_est_percent_zero solution_errors_equal)
qed

lemma sqrt_25: "sqrt (25::real) = 5"
  by (rule real_sqrt_unique) simp_all

theorem reported_total_error_witness:
  "(0::real) \<le> 10
   \<and> err_est_percent [(Base 0, 3), (Base 1, 4)] 10 = 50
   \<and> 0 \<le> err_est_percent [(Base 0, 3), (Base 1, 4)] 10
   \<and> err_est_percent [(Base 0, 0), (Base 1, 0)] 10 = 0
   \<and> err_est_percent (solution_errors [Base 0, Base 1] (\<lambda>e. 1::real) (\<lambda>e. 1)) 10 = 0"
proof -
  note a = reported_total_error [where errs = "[(Base 0, 3), (Base 1, 4)]" and nrm = 10
      and m = "[Base 0, Base 1]" and coarse_sln = "\<lambda>e. 1::real" and ref_sln = "\<lambda>e. 1::real"]
  note b = reported_total_error [where errs = "[(Base 0, 0), (Base 1, 0)]" and nrm = 10
      and m = "[Base 0, Base 1]" and coarse_sln = "\<lambda>e. 1::real" and ref_sln = "\<lambda>e. 1::real"]
  from a have 1: "err_est_percent [(Base 0, 3), (Base 1, 4)] 10 = 50"
    by (simp add: sqrt_25)
  from a have 2: "0 \<le> err_est_percent [(Base 0, 3), (Base 1, 4)] 10" by simp
  from b have 3: "err_est_percent [(Base 0, 0), (Base 1, 0)] 10 = 0" by simp
  from a have 4: "err_est_percent (solution_errors [Base 0, Base 1] (\<lambda>e. 1::real) (\<lambda>e. 1)) 10 = 0"
    by simp
  from 1 2 3 4 show ?thesis by simp
qed

section \<open>The projection on the coarse space\<close>

lemma field_distance_nonneg: "0 \<le> field_distance m f g"
  by (simp add: field_distance_def squared_error_sum_nonneg)

lemma field_distance_self: "field_distance m f f = 0"
proof -
  have "\<forall>p\<in>set (solution_errors m f f). snd p = 0" by (auto simp: solution_errors_def)
  then have "squared_error_sum (solution_errors m f f) = 0"
    by (simp only: squared_error_sum_zero)
  then show ?thesis by (simp add: field_distance_def)
qed

lemma field_distance_zero:
  assumes "field_distance m u ref_sln = 0"
  shows "\<forall>e\<in>set m. u e = ref_sln e"
proof -
  from assms have "squared_error_sum (solution_errors m u ref_sln) = 0"
    by (simp add: field_distance_def)
  then have "\<forall>p\<in>set (solution_errors m u ref_sln). snd p = 0"
    by (simp only: squared_error_sum_zero)
  then show ?thesis by (auto simp: solution_errors_def)
qed

lemma projection_of_representable:
  assumes "ref_sln \<in> S" "is_projection m S ref_sln u"
  shows "field_distance m u ref_sln = 0"
proof -
  from assms have "field_distance m u ref_sln \<le> field_distance m ref_sln ref_sln"
    by (simp add: is_projection_def)
  then have "field_distance m u ref_sln \<le> 0" by (simp add: field_distance_self)
  with field_distance_nonneg [of m u ref_sln] show ?thesis by simp
qed

text \<open>
  C7: when the reference solution is one of the functions of the coarse space, every
  projection of it onto the coarse space has distance zero to it, agrees with it on every
  element of the mesh, and gives an estimated error of zero. The reference solution is then
  a projection of itself, and every projection is its own projection.
\<close>

theorem projection_idempotent:
  "(ref_sln \<in> S \<and> is_projection m S ref_sln u \<longrightarrow>
      field_distance m u ref_sln = 0
      \<and> (\<forall>e\<in>set m. u e = ref_sln e)
      \<and> err_est_percent (solution_errors m u ref_sln) nrm = 0)
   \<and> (ref_sln \<in> S \<longrightarrow> is_projection m S ref_sln ref_sln)
   \<and> (is_projection m S ref_sln u \<longrightarrow> is_projection m S u u)"
proof (intro conjI impI)
  assume h: "ref_sln \<in> S \<and> is_projection m S ref_sln u"
  then show d: "field_distance m u ref_sln = 0"
    using projection_of_representable by blast
  from field_distance_zero [OF d] show e: "\<forall>e\<in>set m. u e = ref_sln e" .
  from e have "\<forall>p\<in>set (solution_errors m u ref_sln). snd p = 0"
    by (auto simp: solution_errors_def)
  then show "err_est_percent (solution_errors m u ref_sln) nrm = 0"
    by (rule err_est_percent_zero)
next
  assume "ref_sln \<in> S"
  then show "is_projection m S ref_sln ref_sln"
    by (simp add: is_projection_def field_distance_self field_distance_nonneg)
next
  assume "is_projection m S ref_sln u"
  then have "u \<in> S" by (simp add: is_projection_def)
  then show "is_projection m S u u"
    by (simp add: is_projection_def field_distance_self field_distance_nonneg)
qed

theorem projection_idempotent_witness:
  "(\<lambda>e. 1::real) \<in> {\<lambda>e. 0, \<lambda>e. 1}
   \<and> field_distance [Base 0, Base 1] (\<lambda>e. 1::real) (\<lambda>e. 1) = 0
   \<and> err_est_percent (solution_errors [Base 0, Base 1] (\<lambda>e. 1::real) (\<lambda>e. 1)) 10 = 0"
proof -
  note t = projection_idempotent [where ref_sln = "\<lambda>e. 1::real" and S = "{\<lambda>e. 0, \<lambda>e. 1}"
      and m = "[Base 0, Base 1]" and u = "\<lambda>e. 1::real" and nrm = 10]
  have a: "(\<lambda>e::element. 1::real) \<in> {\<lambda>e. 0, \<lambda>e. 1}" by simp
  from t a have b: "is_projection [Base 0, Base 1] {\<lambda>e. 0, \<lambda>e. 1} (\<lambda>e. 1::real) (\<lambda>e. 1)"
    by blast
  from t a b show ?thesis by blast
qed

end
